theory Spec2Isabelle
  imports Main "HOL-Library.Multiset" "HOL-Library.Multiset_Order"
begin

section \<open>Data model (types.ts)\<close>

text \<open>
  Parser nodes are consumed by the analysis as loosely typed records: every test is on
  the node's \<open>type\<close> string, on a scalar attribute (\<open>name\<close>, \<open>value\<close>, \<open>importKind\<close>,
  \<open>shorthand\<close>) or on a child reached through a property key.  A node is therefore a
  rose tree: \<open>role\<close> is the property key of the parent under which the node hangs,
  \<open>ntype\<close> its \<open>type\<close> string, \<open>start\<close> its source offset, \<open>attrs\<close> its scalar
  attributes and \<open>kids\<close> its child nodes in the order in which the walker visits them.
  An elided element of an array pattern (a \<open>null\<close> in \<open>elements\<close>) is a leaf of type
  \<open>null\<close>: no test of the analysis matches that type, so that visiting the leaf changes
  nothing.
\<close>

datatype node =
  Node (role: string) (ntype: string) (start: nat) (attrs: "(string \<times> string) list") (kids: "node list")

datatype StateKind = atom | selector | atomFamily | selectorFamily

record RecoilDefinition =
  def_name :: string
  def_kind :: StateKind
  def_file :: string
  def_line :: nat
  getBodyAst :: "node option"
  inlineDefaultGetBody :: "node option"

datatype UsageType = reader | setter | initializer

datatype WriterKind = runtime | fallback

record Usage =
  atomName :: string
  localName :: string
  usageType :: UsageType
  hook :: string
  usage_file :: string
  usage_line :: nat
  enclosingDefinition :: "string option"

record ResolvedUsage = Usage +
  resolvedName :: string
  definitionFile :: string
  writerKind :: "WriterKind option"

record ExtractionResult =
  recoilDefinitions :: "RecoilDefinition list"

text \<open>
  A JavaScript \<open>Map\<close> is a partial function; a \<open>Set\<close> that is iterated is the list of
  its members in insertion order, a \<open>Set\<close> that is only tested for membership is a set.
\<close>

record DependencyGraph =
  dependentSelectors :: "string \<rightharpoonup> string list"
  componentUsages :: "string \<rightharpoonup> ResolvedUsage list"
  definitions :: "string \<rightharpoonup> RecoilDefinition"

record ImpactTarget =
  tgt_name :: string
  tgt_kind :: StateKind
  tgt_file :: string
  tgt_line :: nat

record ImpactDirect =
  readers :: "ResolvedUsage list"
  setters :: "ResolvedUsage list"
  initializers :: "ResolvedUsage list"

record ViaDefinition =
  via_file :: string
  via_line :: nat
  via_kind :: StateKind

record TransitiveDependency =
  via :: string
  viaDefinition :: ViaDefinition
  depth :: nat
  td_readers :: "ResolvedUsage list"
  td_setters :: "ResolvedUsage list"

record ImpactSummary =
  totalFiles :: nat
  totalComponents :: nat
  totalSelectors :: nat

record ImpactResult =
  target :: ImpactTarget
  direct :: ImpactDirect
  transitive :: "TransitiveDependency list"
  summary :: ImpactSummary

record RuntimeWriteCallsite =
  cs_atomName :: string
  cs_file :: string
  cs_line :: nat
  cs_calleeName :: string

record CoverageOptions =
  runtimeCallsites :: "RuntimeWriteCallsite list"
  resolvedFactoryKeys :: "string set"

section \<open>Dependency graph (graph.ts)\<close>

text \<open>\<open>set.add\<close> on an insertion-ordered set.\<close>

definition set_add :: "string \<Rightarrow> string list \<Rightarrow> string list" where
  "set_add x xs = (if x \<in> set xs then xs else xs @ [x])"

text \<open>JavaScript truthiness of an optional string: present and not empty.\<close>

definition truthy :: "string option \<Rightarrow> bool" where
  "truthy s = (case s of None \<Rightarrow> False | Some t \<Rightarrow> t \<noteq> [])"

definition index_definition :: "RecoilDefinition \<Rightarrow> (string \<rightharpoonup> RecoilDefinition) \<Rightarrow> (string \<rightharpoonup> RecoilDefinition)" where
  "index_definition d m = m(def_name d \<mapsto> d)"

definition partition_usage ::
  "ResolvedUsage \<Rightarrow> (string \<rightharpoonup> string list) \<times> (string \<rightharpoonup> ResolvedUsage list)
     \<Rightarrow> (string \<rightharpoonup> string list) \<times> (string \<rightharpoonup> ResolvedUsage list)" where
  "partition_usage u st =
     (case st of (ds, cu) \<Rightarrow>
       (if hook u = ''get(selector)'' \<and> truthy (enclosingDefinition u) then
          (let ds1 = (if ds (resolvedName u) = None then ds(resolvedName u \<mapsto> []) else ds)
           in (ds1(resolvedName u \<mapsto> set_add (the (enclosingDefinition u)) (the (ds1 (resolvedName u)))), cu))
        else
          (let cu1 = (if cu (resolvedName u) = None then cu(resolvedName u \<mapsto> []) else cu)
           in (ds, cu1(resolvedName u \<mapsto> the (cu1 (resolvedName u)) @ [u])))))"

definition buildDependencyGraph :: "ExtractionResult \<Rightarrow> ResolvedUsage list \<Rightarrow> DependencyGraph" where
  "buildDependencyGraph extraction resolvedUsages =
     (let defs = fold index_definition (recoilDefinitions extraction) Map.empty;
          parts = fold partition_usage resolvedUsages (Map.empty, Map.empty)
      in \<lparr>dependentSelectors = fst parts, componentUsages = snd parts, definitions = defs\<rparr>)"

section \<open>Impact engine (impact.ts)\<close>

definition maxDepth :: nat where
  "maxDepth = 5"

text \<open>Decimal rendering of a line number inside a template literal.\<close>

fun string_of_nat :: "nat \<Rightarrow> string" where
  "string_of_nat n =
     (if n < 10 then [''0123456789'' ! n]
      else string_of_nat (n div 10) @ [''0123456789'' ! (n mod 10)])"

declare string_of_nat.simps [simp del]

definition factoryKey :: "ResolvedUsage \<Rightarrow> string" where
  "factoryKey f = usage_file f @ '':'' @ string_of_nat (usage_line f)"

definition usages_of :: "DependencyGraph \<Rightarrow> string \<Rightarrow> ResolvedUsage list" where
  "usages_of graph n = (case componentUsages graph n of None \<Rightarrow> [] | Some us \<Rightarrow> us)"

definition dependents_of :: "DependencyGraph \<Rightarrow> string \<Rightarrow> string list" where
  "dependents_of graph n = (case dependentSelectors graph n of None \<Rightarrow> [] | Some s \<Rightarrow> s)"

definition runtimeUsage :: "RecoilDefinition \<Rightarrow> RuntimeWriteCallsite \<Rightarrow> ResolvedUsage" where
  "runtimeUsage definition c =
     \<lparr>atomName = cs_atomName c, localName = cs_calleeName c, usageType = setter,
      hook = ''setter call'', usage_file = cs_file c, usage_line = cs_line c,
      enclosingDefinition = None, resolvedName = cs_atomName c,
      definitionFile = def_file definition, writerKind = Some runtime\<rparr>"

definition mergeSetters ::
  "RecoilDefinition \<Rightarrow> string \<Rightarrow> ResolvedUsage list \<Rightarrow> CoverageOptions option \<Rightarrow> ResolvedUsage list" where
  "mergeSetters definition name factorySetters coverageOptions =
     (case coverageOptions of
        Some opts \<Rightarrow>
          (let runtimeForAtom = filter (\<lambda>c. cs_atomName c = name) (runtimeCallsites opts);
               runtimeUsages = map (runtimeUsage definition) runtimeForAtom;
               fallbackSetters =
                 map (\<lambda>f. f\<lparr>writerKind := Some fallback\<rparr>)
                   (filter (\<lambda>f. factoryKey f \<notin> resolvedFactoryKeys opts) factorySetters)
           in runtimeUsages @ fallbackSetters)
      | None \<Rightarrow> factorySetters)"

definition transitiveEntry :: "DependencyGraph \<Rightarrow> string \<Rightarrow> nat \<Rightarrow> TransitiveDependency" where
  "transitiveEntry graph selectorName d =
     (let selectorUsages = usages_of graph selectorName
      in \<lparr>via = selectorName,
          viaDefinition =
            (case definitions graph selectorName of
               Some sd \<Rightarrow> \<lparr>via_file = def_file sd, via_line = def_line sd, via_kind = def_kind sd\<rparr>
             | None \<Rightarrow> \<lparr>via_file = [], via_line = 0, via_kind = selector\<rparr>),
          depth = d,
          td_readers = filter (\<lambda>u. usageType u = reader) selectorUsages,
          td_setters = filter (\<lambda>u. usageType u = setter) selectorUsages\<rparr>)"

text \<open>
  The \<open>while (queue.length > 0)\<close> loop.  The loop state is the queue of
  \<open>{selectorName, depth}\<close> entries, the visited set and the \<open>transitive\<close> list built so far.
\<close>

function bfs ::
  "DependencyGraph \<Rightarrow> (string \<times> nat) list \<Rightarrow> string set \<Rightarrow> TransitiveDependency list
     \<Rightarrow> TransitiveDependency list" where
  "bfs graph [] visited acc = acc"
| "bfs graph ((selectorName, d) # queue) visited acc =
     (if d > maxDepth then bfs graph queue visited acc
      else if selectorName \<in> visited then bfs graph queue visited acc
      else
        (let visited1 = insert selectorName visited;
             nextSelectors = dependents_of graph selectorName
         in bfs graph
              (queue @ map (\<lambda>n. (n, d + 1)) (filter (\<lambda>n. n \<notin> visited1) nextSelectors))
              visited1
              (acc @ [transitiveEntry graph selectorName d])))"
  by pat_completeness auto

text \<open>
  Every queue entry weighs \<open>maxDepth + 1 - depth\<close>.  An iteration removes the head entry
  and appends only entries of a strictly smaller weight, so the multiset of weights
  decreases, whatever the graph looks like.
\<close>

termination bfs
proof (relation "inv_image {(M :: nat multiset, N). M < N}
         (\<lambda>(g, q, v, t). mset (map (\<lambda>(n, d). Suc maxDepth - d) q))", goal_cases)
  case 1
  show ?case by (simp add: wf_less_multiset)
next
  case 2
  show ?case by simp
next
  case 3
  show ?case by simp
next
  case (4 graph selectorName d queue visited acc x xa)
  then have "maxDepth - d < Suc maxDepth - d" by linarith
  then show ?case by simp
qed

definition summarize ::
  "ResolvedUsage list \<Rightarrow> TransitiveDependency list \<Rightarrow> ImpactSummary" where
  "summarize directAll deps =
     (let componentFiles =
            map usage_file directAll
            @ concat (map (\<lambda>dep. map usage_file (td_readers dep @ td_setters dep)) deps);
          allFiles =
            componentFiles
            @ filter (\<lambda>f. f \<noteq> []) (map (\<lambda>dep. via_file (viaDefinition dep)) deps)
      in \<lparr>totalFiles = length (remdups allFiles),
          totalComponents = length (remdups componentFiles),
          totalSelectors = length deps\<rparr>)"

definition analyzeAtomImpact ::
  "DependencyGraph \<Rightarrow> string \<Rightarrow> CoverageOptions option \<Rightarrow> ImpactResult option" where
  "analyzeAtomImpact graph name coverageOptions =
     (case definitions graph name of
        None \<Rightarrow> None
      | Some definition \<Rightarrow>
          (let directUsages = usages_of graph name;
               rs = filter (\<lambda>u. usageType u = reader) directUsages;
               factorySetters = filter (\<lambda>u. usageType u = setter) directUsages;
               ins = filter (\<lambda>u. usageType u = initializer) directUsages;
               ss = mergeSetters definition name factorySetters coverageOptions;
               deps = bfs graph (map (\<lambda>s. (s, 1)) (dependents_of graph name)) {} []
           in Some
                \<lparr>target = \<lparr>tgt_name = def_name definition, tgt_kind = def_kind definition,
                            tgt_file = def_file definition, tgt_line = def_line definition\<rparr>,
                 direct = \<lparr>readers = rs, setters = ss, initializers = ins\<rparr>,
                 transitive = deps,
                 summary = summarize (rs @ ss @ ins) deps\<rparr>))"

text \<open>
  \<open>path.resolve\<close> belongs to the runtime; it is the parameter \<open>resolve\<close>.
\<close>

definition push_result :: "ImpactResult option \<Rightarrow> ImpactResult list \<Rightarrow> ImpactResult list" where
  "push_result result results = (case result of Some r \<Rightarrow> results @ [r] | None \<Rightarrow> results)"

definition analyzeFileImpact ::
  "(string \<Rightarrow> string) \<Rightarrow> DependencyGraph \<Rightarrow> string \<Rightarrow> ExtractionResult
     \<Rightarrow> CoverageOptions option \<Rightarrow> ImpactResult list" where
  "analyzeFileImpact resolve graph filePath extraction coverageOptions =
     (let resolvedPath = resolve filePath;
          defs = filter (\<lambda>d. def_file d = resolvedPath) (recoilDefinitions extraction)
      in fold (\<lambda>d results. push_result (analyzeAtomImpact graph (def_name d) coverageOptions) results)
           defs [])"

text \<open>
  The write list as it was before the coverage merge, in the words of the specification:
  exactly the direct write usages of the target, in their order, with no writer kind
  tagging.
\<close>

definition premergeSetters :: "DependencyGraph \<Rightarrow> string \<Rightarrow> ResolvedUsage list" where
  "premergeSetters graph name =
     filter (\<lambda>u. usageType u = setter)
       (case componentUsages graph name of None \<Rightarrow> [] | Some us \<Rightarrow> us)"

section \<open>Identifier resolver (resolve.ts)\<close>

record ImportRecord =
  imp_localName :: string
  imp_exportedName :: string
  imp_sourceFile :: string

text \<open>
  A re-export record is \<open>{type: 'named', localName, exportedName, sourceFile}\<close> or
  \<open>{type: 'star', sourceFile}\<close>: \<open>Named localName exportedName sourceFile\<close> and
  \<open>Star sourceFile\<close>.
\<close>

datatype ReExportRecord = Named string string string | Star string

text \<open>
  The file graph maps a file to the imports, re-exports and local exports that
  \<open>parseFileImports\<close> finds in it; \<open>buildFileGraph\<close> builds it from the files on disk, and
  the functions below take it as their input.
\<close>

record FileInfo =
  importRecords :: "ImportRecord list"
  reExports :: "ReExportRecord list"
  localExports :: "string set"

type_synonym FileGraph = "string \<rightharpoonup> FileInfo"

type_synonym DefinitionLookup = "string \<rightharpoonup> (string \<rightharpoonup> string)"

definition maxChainDepth :: nat where
  "maxChainDepth = 5"

definition lookup_add :: "RecoilDefinition \<Rightarrow> DefinitionLookup \<Rightarrow> DefinitionLookup" where
  "lookup_add d lookup =
     (let lookup1 = (if lookup (def_file d) = None then lookup(def_file d \<mapsto> Map.empty) else lookup)
      in lookup1(def_file d \<mapsto> (the (lookup1 (def_file d)))(def_name d \<mapsto> def_name d)))"

definition buildDefinitionLookup :: "ExtractionResult \<Rightarrow> DefinitionLookup" where
  "buildDefinitionLookup extraction = fold lookup_add (recoilDefinitions extraction) Map.empty"

text \<open>\<open>fileDefs_get definitionLookup f name\<close> is \<open>definitionLookup.get(f)?.get(name)\<close>.\<close>

definition fileDefs_get :: "DefinitionLookup \<Rightarrow> string \<Rightarrow> string \<Rightarrow> string option" where
  "fileDefs_get definitionLookup f name =
     (case definitionLookup f of None \<Rightarrow> None | Some fileDefs \<Rightarrow> fileDefs name)"

definition is_named_for :: "string \<Rightarrow> ReExportRecord \<Rightarrow> bool" where
  "is_named_for name r = (case r of Named l e s \<Rightarrow> l = name | Star s \<Rightarrow> False)"

text \<open>
  \<open>resolveExportedName\<close> returns its result together with the visited set, which the
  source shares between all calls of one resolution.  Its three loops are: the first
  named re-export of the name (\<open>find\<close>), every star re-export in turn until one resolves
  (\<open>resolveStarReExports\<close>), and the first import of the name.
\<close>

function resolveExportedName ::
  "string \<Rightarrow> string \<Rightarrow> FileGraph \<Rightarrow> DefinitionLookup \<Rightarrow> nat \<Rightarrow> string set
     \<Rightarrow> (string \<times> string) option \<times> string set"
and resolveStarReExports ::
  "ReExportRecord list \<Rightarrow> string \<Rightarrow> FileGraph \<Rightarrow> DefinitionLookup \<Rightarrow> nat \<Rightarrow> string set
     \<Rightarrow> (string \<times> string) option \<times> string set"
where
  "resolveExportedName f name graph definitionLookup d visited =
     (if d > maxChainDepth then (None, visited)
      else if f @ '':'' @ name \<in> visited then (None, visited)
      else
        (let visited1 = insert (f @ '':'' @ name) visited
         in case fileDefs_get definitionLookup f name of
              Some resolved \<Rightarrow> (Some (resolved, f), visited1)
            | None \<Rightarrow>
               (case graph f of
                  None \<Rightarrow> (None, visited1)
                | Some fileInfo \<Rightarrow>
                   (case find (is_named_for name) (reExports fileInfo) of
                      Some (Named l e s) \<Rightarrow>
                        resolveExportedName s e graph definitionLookup (d + 1) visited1
                    | _ \<Rightarrow>
                       (case resolveStarReExports (reExports fileInfo) name graph definitionLookup d visited1 of
                          (Some result, visited2) \<Rightarrow> (Some result, visited2)
                        | (None, visited2) \<Rightarrow>
                           (case find (\<lambda>i. imp_localName i = name) (importRecords fileInfo) of
                              Some importRecord \<Rightarrow>
                                resolveExportedName (imp_sourceFile importRecord)
                                  (imp_exportedName importRecord) graph definitionLookup (d + 1) visited2
                            | None \<Rightarrow> (None, visited2)))))))"
| "resolveStarReExports [] name graph definitionLookup d visited = (None, visited)"
| "resolveStarReExports (Named l e s # rest) name graph definitionLookup d visited =
     resolveStarReExports rest name graph definitionLookup d visited"
| "resolveStarReExports (Star s # rest) name graph definitionLookup d visited =
     (case resolveExportedName s name graph definitionLookup (d + 1) visited of
        (Some result, visited1) \<Rightarrow> (Some result, visited1)
      | (None, visited1) \<Rightarrow> resolveStarReExports rest name graph definitionLookup d visited1)"
  by pat_completeness auto

text \<open>
  Termination: the depth grows with every call and no call is made beyond
  \<open>maxChainDepth\<close>; the loop over the star re-exports shortens its list.
\<close>

termination
  apply (relation "measures
     [\<lambda>x. case x of Inl (f, name, graph, dl, d, visited) \<Rightarrow> 8 - d
                   | Inr (rs, name, graph, dl, d, visited) \<Rightarrow> 7 - d,
      \<lambda>x. case x of Inl (f, name, graph, dl, d, visited) \<Rightarrow> 0
                   | Inr (rs, name, graph, dl, d, visited) \<Rightarrow> Suc (length rs)]")
  apply (auto simp: maxChainDepth_def)
  done

text \<open>One iteration of the loop of \<open>resolveUsages\<close>: the resolved usage, if there is one.\<close>

definition resolveUsage :: "FileGraph \<Rightarrow> DefinitionLookup \<Rightarrow> Usage \<Rightarrow> ResolvedUsage option" where
  "resolveUsage graph definitionLookup usage =
     (case fileDefs_get definitionLookup (usage_file usage) (localName usage) of
        Some resolved \<Rightarrow>
          Some (Usage.extend usage
                  \<lparr>resolvedName = resolved, definitionFile = usage_file usage, writerKind = None\<rparr>)
      | None \<Rightarrow>
         (case graph (usage_file usage) of
            None \<Rightarrow> None
          | Some fileInfo \<Rightarrow>
             (case find (\<lambda>i. imp_localName i = localName usage) (importRecords fileInfo) of
                None \<Rightarrow> None
              | Some importRecord \<Rightarrow>
                 (case fst (resolveExportedName (imp_sourceFile importRecord)
                              (imp_exportedName importRecord) graph definitionLookup 1 {}) of
                    Some (rn, df) \<Rightarrow>
                      Some (Usage.extend usage
                              \<lparr>resolvedName = rn, definitionFile = df, writerKind = None\<rparr>)
                  | None \<Rightarrow> None))))"

definition resolveUsages :: "FileGraph \<Rightarrow> ExtractionResult \<Rightarrow> Usage list \<Rightarrow> ResolvedUsage list" where
  "resolveUsages graph extraction usages =
     (let definitionLookup = buildDefinitionLookup extraction
      in fold (\<lambda>usage resolved.
                 case resolveUsage graph definitionLookup usage of
                   Some r \<Rightarrow> resolved @ [r]
                 | None \<Rightarrow> resolved)
           usages [])"

text \<open>
  \<open>step_stays graph S f n\<close>: whatever \<open>resolveExportedName\<close> follows from the pair
  \<open>(f, n)\<close> is a pair of \<open>S\<close>: the first named re-export of \<open>n\<close> if there is one, and
  otherwise every star re-export and the first import of \<open>n\<close>.  A set of pairs is closed
  when no pair of it is a definition and the step from each pair stays in the set: it is
  a cycle of re-exports (or a dead end) that resolution cannot leave.
\<close>

definition step_stays :: "FileGraph \<Rightarrow> (string \<times> string) set \<Rightarrow> string \<Rightarrow> string \<Rightarrow> bool" where
  "step_stays graph S f n =
     (case graph f of
        None \<Rightarrow> True
      | Some fileInfo \<Rightarrow>
         (case find (is_named_for n) (reExports fileInfo) of
            Some (Named l e s) \<Rightarrow> (s, e) \<in> S
          | _ \<Rightarrow>
             (\<forall>r\<in>set (reExports fileInfo). case r of Named l e s \<Rightarrow> True | Star s \<Rightarrow> (s, n) \<in> S) \<and>
             (case find (\<lambda>i. imp_localName i = n) (importRecords fileInfo) of
                Some i \<Rightarrow> (imp_sourceFile i, imp_exportedName i) \<in> S
              | None \<Rightarrow> True)))"

definition chain_closed :: "FileGraph \<Rightarrow> DefinitionLookup \<Rightarrow> (string \<times> string) set \<Rightarrow> bool" where
  "chain_closed graph definitionLookup S =
     (\<forall>(f, n)\<in>S. fileDefs_get definitionLookup f n = None \<and> step_stays graph S f n)"

declare resolveExportedName.simps [simp del]

section \<open>Reading parser nodes\<close>

text \<open>
  \<open>attr n k\<close> is the scalar property \<open>n.k\<close>, \<open>child n k\<close> the node-valued property \<open>n.k\<close>
  and \<open>childList n k\<close> the array-valued property \<open>n.k\<close> (an absent array and an empty one
  are not told apart: the code treats both as nothing to iterate).  \<open>typeIs x t\<close> is the
  test \<open>x?.type === t\<close> and \<open>nameOf x\<close> the read \<open>x?.name\<close>.  The parser gives every
  identifier its name; where the code reads the name of a node that may be missing, it
  compares the name with a non-empty string or tests it for truthiness, so that the
  missing name reads as the empty string.
\<close>

definition attr :: "node \<Rightarrow> string \<Rightarrow> string option" where
  "attr n k = map_of (attrs n) k"

definition child :: "node \<Rightarrow> string \<Rightarrow> node option" where
  "child n k = find (\<lambda>c. role c = k) (kids n)"

definition childList :: "node \<Rightarrow> string \<Rightarrow> node list" where
  "childList n k = filter (\<lambda>c. role c = k) (kids n)"

definition typeIs :: "node option \<Rightarrow> string \<Rightarrow> bool" where
  "typeIs x t = (case x of None \<Rightarrow> False | Some n \<Rightarrow> ntype n = t)"

definition nameOf :: "node option \<Rightarrow> string" where
  "nameOf x = (case x of None \<Rightarrow> [] | Some n \<Rightarrow> (case attr n ''name'' of None \<Rightarrow> [] | Some s \<Rightarrow> s))"

definition firstArgument :: "node \<Rightarrow> node option" where
  "firstArgument callNode = (case childList callNode ''arguments'' of [] \<Rightarrow> None | a # rest \<Rightarrow> Some a)"

text \<open>
  \<open>walk(node, {enter, leave})\<close> of oxc-walker: \<open>enter\<close> on the node, then the walk of
  every child in order, then \<open>leave\<close> on the node.  The callbacks act on the state that
  the source keeps in variables captured by the closures.
\<close>

function walk :: "(node \<Rightarrow> 's \<Rightarrow> 's) \<Rightarrow> (node \<Rightarrow> 's \<Rightarrow> 's) \<Rightarrow> node \<Rightarrow> 's \<Rightarrow> 's" where
  "walk enter leave n s = leave n (fold (walk enter leave) (kids n) (enter n s))"
  by pat_completeness auto

termination walk
proof (relation "measure (\<lambda>(enter, leave, n, s). size n)", goal_cases)
  case 1
  show ?case by simp
next
  case (2 enter leave n s x)
  then have "size x < size n"
    by (cases n) (auto simp: less_Suc_eq_le size_list_estimation')
  then show ?case by simp
qed

declare walk.simps [simp del]

definition no_leave :: "node \<Rightarrow> 's \<Rightarrow> 's" where
  "no_leave n s = s"

text \<open>The loop of \<open>offsetToLine\<close>, from \<open>index\<close> on, with the line counted so far.\<close>

function countLines :: "string \<Rightarrow> nat \<Rightarrow> nat \<Rightarrow> nat \<Rightarrow> nat" where
  "countLines source offset index line =
     (if index < offset \<and> index < length source
      then countLines source offset (index + 1)
             (if source ! index = CHR 0x0A then line + 1 else line)
      else line)"
  by pat_completeness auto

termination countLines
  by (relation "measure (\<lambda>(source, offset, index, line). length source - index)") auto

declare countLines.simps [simp del]

definition offsetToLine :: "string \<Rightarrow> nat \<Rightarrow> nat" where
  "offsetToLine source offset = countLines source offset 0 1"

section \<open>Usage collector (collect-usages.ts)\<close>

definition allRecoilHooks :: "string list" where
  "allRecoilHooks =
     [''useRecoilValue'', ''useSetRecoilState'', ''useResetRecoilState'', ''useRecoilState'',
      ''useRecoilCallback'']"

definition extractAtomName :: "node option \<Rightarrow> string option" where
  "extractAtomName argument =
     (case argument of
        None \<Rightarrow> None
      | Some a \<Rightarrow>
          if ntype a = ''Identifier'' then Some (nameOf (Some a))
          else if ntype a = ''CallExpression'' \<and> typeIs (child a ''callee'') ''Identifier''
          then Some (nameOf (child a ''callee''))
          else None)"

text \<open>The test \<open>/^initialize/i\<close>: the first ten characters, ASCII letters lowered.\<close>

definition lowerChar :: "char \<Rightarrow> char" where
  "lowerChar c =
     (case map_of (zip ''ABCDEFGHIJKLMNOPQRSTUVWXYZ'' ''abcdefghijklmnopqrstuvwxyz'') c of
        Some l \<Rightarrow> l
      | None \<Rightarrow> c)"

definition startsWithInitialize :: "string \<Rightarrow> bool" where
  "startsWithInitialize name = (map lowerChar (take 10 name) = ''initialize'')"

definition initializerAncestor :: "node \<Rightarrow> bool" where
  "initializerAncestor ancestor =
     ((ntype ancestor = ''FunctionDeclaration'' \<and> typeIs (child ancestor ''id'') ''Identifier'' \<and>
         startsWithInitialize (nameOf (child ancestor ''id''))) \<or>
      (ntype ancestor = ''VariableDeclarator'' \<and> typeIs (child ancestor ''id'') ''Identifier'' \<and>
         startsWithInitialize (nameOf (child ancestor ''id''))) \<or>
      (ntype ancestor = ''FunctionExpression'' \<and> typeIs (child ancestor ''id'') ''Identifier'' \<and>
         startsWithInitialize (nameOf (child ancestor ''id''))) \<or>
      (ntype ancestor = ''JSXAttribute'' \<and> typeIs (child ancestor ''name'') ''JSXIdentifier'' \<and>
         nameOf (child ancestor ''name'') = ''initializeState''))"

definition isInsideInitializer :: "node list \<Rightarrow> bool" where
  "isInsideInitializer ancestors = list_ex initializerAncestor ancestors"

record CallbackContext =
  setAlias :: "string option"
  resetAlias :: "string option"
  getPromiseAlias :: "string option"
  snapshotAlias :: "string option"

definition boundName :: "node \<Rightarrow> string" where
  "boundName property =
     (if attr property ''shorthand'' = Some ''true'' then nameOf (child property ''key'')
      else nameOf (child property ''value''))"

definition parseInnerProperty :: "node \<Rightarrow> CallbackContext \<Rightarrow> CallbackContext" where
  "parseInnerProperty inner context =
     (if ntype inner = ''Property'' \<and> nameOf (child inner ''key'') = ''getPromise''
      then context\<lparr>getPromiseAlias := Some (boundName inner)\<rparr>
      else context)"

definition parseProperty :: "node \<Rightarrow> CallbackContext \<Rightarrow> CallbackContext" where
  "parseProperty property context =
     (if ntype property \<noteq> ''Property'' then context
      else
        (let keyName = nameOf (child property ''key'')
         in if keyName = [] then context
            else if keyName = ''set'' \<and> typeIs (child property ''value'') ''Identifier''
            then context\<lparr>setAlias := Some (boundName property)\<rparr>
            else if keyName = ''reset'' \<and> typeIs (child property ''value'') ''Identifier''
            then context\<lparr>resetAlias := Some (boundName property)\<rparr>
            else if keyName = ''snapshot'' then
              (if typeIs (child property ''value'') ''ObjectPattern''
               then fold parseInnerProperty
                      (case child property ''value'' of None \<Rightarrow> [] | Some v \<Rightarrow> childList v ''properties'')
                      context
               else if typeIs (child property ''value'') ''Identifier''
               then context\<lparr>snapshotAlias := Some (boundName property)\<rparr>
               else context)
            else context))"

definition parseCallbackParameter :: "node \<Rightarrow> CallbackContext" where
  "parseCallbackParameter parameter =
     (let context = \<lparr>setAlias = None, resetAlias = None, getPromiseAlias = None, snapshotAlias = None\<rparr>
      in if ntype parameter \<noteq> ''ObjectPattern'' then context
         else fold parseProperty (childList parameter ''properties'') context)"

definition mkUsage ::
  "string \<Rightarrow> UsageType \<Rightarrow> string \<Rightarrow> string \<Rightarrow> nat \<Rightarrow> string option \<Rightarrow> Usage" where
  "mkUsage name t h f l enclosing =
     \<lparr>atomName = name, localName = name, usageType = t, hook = h, usage_file = f,
      usage_line = l, enclosingDefinition = enclosing\<rparr>"

text \<open>
  \<open>pushFor argument t h f l usages\<close>: \<open>atomName = extractAtomName(argument)\<close> and, if it is
  truthy, the push of one usage.
\<close>

definition pushFor ::
  "node option \<Rightarrow> UsageType \<Rightarrow> string \<Rightarrow> string \<Rightarrow> nat \<Rightarrow> string option \<Rightarrow> Usage list \<Rightarrow> Usage list" where
  "pushFor argument t h f l enclosing usages =
     (if truthy (extractAtomName argument)
      then usages @ [mkUsage (the (extractAtomName argument)) t h f l enclosing]
      else usages)"

definition calleeIs :: "node \<Rightarrow> string option \<Rightarrow> bool" where
  "calleeIs callNode alias =
     (truthy alias \<and> typeIs (child callNode ''callee'') ''Identifier'' \<and>
      Some (nameOf (child callNode ''callee'')) = alias)"

definition calleeIsSnapshotGetPromise :: "node \<Rightarrow> string option \<Rightarrow> bool" where
  "calleeIsSnapshotGetPromise callNode alias =
     (truthy alias \<and> typeIs (child callNode ''callee'') ''MemberExpression'' \<and>
      (case child callNode ''callee'' of
         None \<Rightarrow> False
       | Some callee \<Rightarrow>
           typeIs (child callee ''object'') ''Identifier'' \<and>
           Some (nameOf (child callee ''object'')) = alias \<and>
           typeIs (child callee ''property'') ''Identifier'' \<and>
           nameOf (child callee ''property'') = ''getPromise''))"

definition callbackEnter ::
  "CallbackContext \<Rightarrow> string \<Rightarrow> string \<Rightarrow> node list \<Rightarrow> node \<Rightarrow> Usage list \<Rightarrow> Usage list" where
  "callbackEnter context filePath source ancestors n usages =
     (if ntype n \<noteq> ''CallExpression'' then usages
      else
        (let line = offsetToLine source (start n);
             u1 = (if calleeIs n (setAlias context)
                   then pushFor (firstArgument n)
                          (if isInsideInitializer ancestors then initializer else setter)
                          ''set(callback)'' filePath line None usages
                   else usages);
             u2 = (if calleeIs n (resetAlias context)
                   then pushFor (firstArgument n) setter ''reset(callback)'' filePath line None u1
                   else u1);
             u3 = (if calleeIs n (getPromiseAlias context)
                   then pushFor (firstArgument n) reader ''getPromise(callback)'' filePath line None u2
                   else u2)
         in if calleeIsSnapshotGetPromise n (snapshotAlias context)
            then pushFor (firstArgument n) reader ''getPromise(callback)'' filePath line None u3
            else u3))"

definition walkCallbackBody ::
  "node \<Rightarrow> CallbackContext \<Rightarrow> string \<Rightarrow> string \<Rightarrow> Usage list \<Rightarrow> node list \<Rightarrow> Usage list" where
  "walkCallbackBody bodyNode context filePath source usages ancestors =
     walk (callbackEnter context filePath source ancestors) no_leave bodyNode usages"

definition selectorEnter :: "string \<Rightarrow> string \<Rightarrow> string \<Rightarrow> node \<Rightarrow> Usage list \<Rightarrow> Usage list" where
  "selectorEnter filePath source definitionName n usages =
     (if ntype n \<noteq> ''CallExpression'' then usages
      else if typeIs (child n ''callee'') ''Identifier'' \<and> nameOf (child n ''callee'') = ''get''
      then pushFor (firstArgument n) reader ''get(selector)'' filePath
             (offsetToLine source (start n)) (Some definitionName) usages
      else usages)"

definition walkSelectorGetBody ::
  "node \<Rightarrow> string \<Rightarrow> string \<Rightarrow> Usage list \<Rightarrow> string \<Rightarrow> Usage list" where
  "walkSelectorGetBody bodyNode filePath source usages definitionName =
     walk (selectorEnter filePath source definitionName) no_leave bodyNode usages"

record CollectState =
  st_hookAliases :: "string \<rightharpoonup> string"
  st_ancestors :: "node list"
  st_functionNameStack :: "string list"
  st_usages :: "Usage list"

definition isNamedFunctionDeclaration :: "node \<Rightarrow> bool" where
  "isNamedFunctionDeclaration n =
     (ntype n = ''FunctionDeclaration'' \<and> typeIs (child n ''id'') ''Identifier'')"

definition addHookAlias :: "node \<Rightarrow> (string \<rightharpoonup> string) \<Rightarrow> (string \<rightharpoonup> string)" where
  "addHookAlias spec aliases =
     (if ntype spec \<noteq> ''ImportSpecifier'' \<or> attr spec ''importKind'' = Some ''type'' then aliases
      else
        (let imported = nameOf (child spec ''imported'');
             local = nameOf (child spec ''local'')
         in if imported \<noteq> [] \<and> local \<noteq> [] \<and> imported \<in> set allRecoilHooks
            then aliases(local \<mapsto> imported)
            else aliases))"

definition importSourceOf :: "node \<Rightarrow> string option" where
  "importSourceOf n = (case child n ''source'' of None \<Rightarrow> None | Some s \<Rightarrow> attr s ''value'')"

definition enterImport :: "node \<Rightarrow> CollectState \<Rightarrow> CollectState" where
  "enterImport n st =
     (if importSourceOf n \<noteq> Some ''recoil'' \<or> attr n ''importKind'' = Some ''type'' then st
      else st\<lparr>st_hookAliases := fold addHookAlias (childList n ''specifiers'') (st_hookAliases st)\<rparr>)"

definition enterRecoilCallback :: "string \<Rightarrow> string \<Rightarrow> node \<Rightarrow> CollectState \<Rightarrow> CollectState" where
  "enterRecoilCallback filePath source callNode st =
     (case firstArgument callNode of
        None \<Rightarrow> st
      | Some callbackFunction \<Rightarrow>
          if ntype callbackFunction \<noteq> ''ArrowFunctionExpression'' \<and>
             ntype callbackFunction \<noteq> ''FunctionExpression''
          then st
          else
            (case childList callbackFunction ''params'' of
               [] \<Rightarrow> st
             | p # ps \<Rightarrow>
                 (case child callbackFunction ''body'' of
                    None \<Rightarrow> st
                  | Some body \<Rightarrow>
                      st\<lparr>st_usages :=
                           walkCallbackBody body (parseCallbackParameter p) filePath source
                             (st_usages st) (st_ancestors st)\<rparr>)))"

definition enterHookCall :: "string \<Rightarrow> string \<Rightarrow> string \<Rightarrow> node \<Rightarrow> CollectState \<Rightarrow> CollectState" where
  "enterHookCall hookName filePath source callNode st =
     (let line = offsetToLine source (start callNode)
      in if hookName = ''useRecoilValue''
         then st\<lparr>st_usages := pushFor (firstArgument callNode) reader ''useRecoilValue'' filePath line None (st_usages st)\<rparr>
         else if hookName = ''useSetRecoilState''
         then st\<lparr>st_usages := pushFor (firstArgument callNode) setter ''useSetRecoilState'' filePath line None (st_usages st)\<rparr>
         else if hookName = ''useResetRecoilState''
         then st\<lparr>st_usages := pushFor (firstArgument callNode) setter ''useResetRecoilState'' filePath line None (st_usages st)\<rparr>
         else if hookName = ''useRecoilState''
         then st\<lparr>st_usages :=
                   pushFor (firstArgument callNode) setter ''useRecoilState'' filePath line None
                     (pushFor (firstArgument callNode) reader ''useRecoilState'' filePath line None (st_usages st))\<rparr>
         else if hookName = ''useRecoilCallback''
         then enterRecoilCallback filePath source callNode st
         else st)"

definition enterCall :: "string \<Rightarrow> string \<Rightarrow> node \<Rightarrow> CollectState \<Rightarrow> CollectState" where
  "enterCall filePath source callNode st =
     (if \<not> typeIs (child callNode ''callee'') ''Identifier'' then st
      else
        (let calleeName = nameOf (child callNode ''callee'')
         in if calleeName = ''set'' \<and> st_functionNameStack st \<noteq> [] \<and>
               last (st_functionNameStack st) \<noteq> [] \<and>
               startsWithInitialize (last (st_functionNameStack st))
            then st\<lparr>st_usages :=
                      pushFor (firstArgument callNode) initializer ''set(initializer)'' filePath
                        (offsetToLine source (start callNode)) None (st_usages st)\<rparr>
            else
              (case st_hookAliases st calleeName of
                 None \<Rightarrow> st
               | Some hookName \<Rightarrow> enterHookCall hookName filePath source callNode st)))"

definition collectEnter :: "string \<Rightarrow> string \<Rightarrow> node \<Rightarrow> CollectState \<Rightarrow> CollectState" where
  "collectEnter filePath source n st0 =
     (let st1 = st0\<lparr>st_ancestors := st_ancestors st0 @ [n]\<rparr>;
          st = (if isNamedFunctionDeclaration n
                then st1\<lparr>st_functionNameStack := st_functionNameStack st1 @ [nameOf (child n ''id'')]\<rparr>
                else st1)
      in if ntype n = ''ImportDeclaration'' then enterImport n st
         else if ntype n \<noteq> ''CallExpression'' then st
         else enterCall filePath source n st)"

definition collectLeave :: "node \<Rightarrow> CollectState \<Rightarrow> CollectState" where
  "collectLeave n st0 =
     (let st = st0\<lparr>st_ancestors := butlast (st_ancestors st0)\<rparr>
      in if isNamedFunctionDeclaration n
         then st\<lparr>st_functionNameStack := butlast (st_functionNameStack st)\<rparr>
         else st)"

text \<open>
  The parser and the file system belong to the runtime: \<open>parse filePath source\<close> is the
  program node of \<open>parseSync\<close> (\<open>None\<close> when it throws) and \<open>readFile filePath\<close> the text
  of \<open>fs.readFileSync\<close> (\<open>None\<close> when it throws).  \<open>readFileSource\<close> caches what it
  reads; with a file system that does not change during the run the cache is not
  observable and is left out.
\<close>

definition collectFromFile ::
  "(string \<Rightarrow> string \<Rightarrow> node option) \<Rightarrow> string \<Rightarrow> string \<Rightarrow> Usage list \<Rightarrow> Usage list" where
  "collectFromFile parse filePath source usages0 =
     (case parse filePath source of
        None \<Rightarrow> usages0
      | Some program \<Rightarrow>
          st_usages
            (walk (collectEnter filePath source) collectLeave program
               \<lparr>st_hookAliases = Map.empty, st_ancestors = [], st_functionNameStack = [], st_usages = usages0\<rparr>))"

definition collectFromDefinition ::
  "(string \<Rightarrow> string option) \<Rightarrow> RecoilDefinition \<Rightarrow> Usage list \<Rightarrow> Usage list" where
  "collectFromDefinition readFile d usages0 =
     (if \<not> truthy (readFile (def_file d)) then usages0
      else
        (let source = the (readFile (def_file d));
             u1 = (case getBodyAst d of
                     Some body \<Rightarrow>
                       if def_kind d = selector \<or> def_kind d = selectorFamily
                       then walkSelectorGetBody body (def_file d) source usages0 (def_name d)
                       else usages0
                   | None \<Rightarrow> usages0)
         in case inlineDefaultGetBody d of
              Some body \<Rightarrow>
                if def_kind d = atom \<or> def_kind d = atomFamily
                then walkSelectorGetBody body (def_file d) source u1 (def_name d)
                else u1
            | None \<Rightarrow> u1))"

definition collectFromSelectorBodies ::
  "(string \<Rightarrow> string option) \<Rightarrow> ExtractionResult \<Rightarrow> Usage list \<Rightarrow> Usage list" where
  "collectFromSelectorBodies readFile extraction usages0 =
     fold (collectFromDefinition readFile) (recoilDefinitions extraction) usages0"

definition collectUsages ::
  "(string \<Rightarrow> string option) \<Rightarrow> (string \<Rightarrow> string \<Rightarrow> node option) \<Rightarrow> string list
     \<Rightarrow> ExtractionResult \<Rightarrow> Usage list" where
  "collectUsages readFile parse files extraction =
     (let hookUsages =
            fold (\<lambda>filePath usages0.
                    if \<not> truthy (readFile filePath) then usages0
                    else collectFromFile parse filePath (the (readFile filePath)) usages0)
              files []
      in collectFromSelectorBodies readFile extraction hookUsages)"

definition hookUsage :: "Usage \<Rightarrow> bool" where
  "hookUsage u = (enclosingDefinition u = None \<and> hook u \<noteq> ''get(selector)'')"

definition hookState :: "CollectState \<Rightarrow> bool" where
  "hookState st = (\<forall>u\<in>set (st_usages st). hookUsage u)"

definition ownedBy :: "string \<Rightarrow> Usage \<Rightarrow> bool" where
  "ownedBy name u = (hook u = ''get(selector)'' \<and> enclosingDefinition u = Some name)"

section \<open>Writer bindings (setter-bindings.ts)\<close>

definition setterHookNames :: "string list" where
  "setterHookNames = [''useSetRecoilState'', ''useResetRecoilState'']"

definition tupleHookNames :: "string list" where
  "tupleHookNames = [''useRecoilState'']"

definition allSetterHooks :: "string list" where
  "allSetterHooks = setterHookNames @ tupleHookNames"

datatype HookWriteBindingKind = setterBinding | tupleBinding

record HookWriteBinding =
  bindingKind :: HookWriteBindingKind
  stateId :: string

definition addSetterHookAlias :: "node \<Rightarrow> (string \<rightharpoonup> string) \<Rightarrow> (string \<rightharpoonup> string)" where
  "addSetterHookAlias spec aliases =
     (if ntype spec \<noteq> ''ImportSpecifier'' \<or> attr spec ''importKind'' = Some ''type'' then aliases
      else
        (let imported = nameOf (child spec ''imported'');
             local = nameOf (child spec ''local'')
         in if imported \<noteq> [] \<and> local \<noteq> [] \<and> imported \<in> set allSetterHooks
            then aliases(local \<mapsto> imported)
            else aliases))"

definition aliasesEnter :: "node \<Rightarrow> (string \<rightharpoonup> string) \<Rightarrow> (string \<rightharpoonup> string)" where
  "aliasesEnter n aliases =
     (if ntype n \<noteq> ''ImportDeclaration'' then aliases
      else if importSourceOf n \<noteq> Some ''recoil'' \<or> attr n ''importKind'' = Some ''type'' then aliases
      else fold addSetterHookAlias (childList n ''specifiers'') aliases)"

definition getRecoilHookAliases :: "node \<Rightarrow> (string \<rightharpoonup> string)" where
  "getRecoilHookAliases ast = walk aliasesEnter no_leave ast Map.empty"

definition resolveDirectHookWriteBinding ::
  "node \<Rightarrow> (string \<rightharpoonup> string) \<Rightarrow> HookWriteBinding option" where
  "resolveDirectHookWriteBinding callExpr aliases =
     (if \<not> typeIs (child callExpr ''callee'') ''Identifier'' then None
      else
        (case aliases (nameOf (child callExpr ''callee'')) of
           None \<Rightarrow> None
         | Some canonicalHook \<Rightarrow>
             if \<not> truthy (extractAtomName (firstArgument callExpr)) then None
             else if canonicalHook \<in> set setterHookNames
             then Some \<lparr>bindingKind = setterBinding, stateId = the (extractAtomName (firstArgument callExpr))\<rparr>
             else if canonicalHook \<in> set tupleHookNames
             then Some \<lparr>bindingKind = tupleBinding, stateId = the (extractAtomName (firstArgument callExpr))\<rparr>
             else None))"

record ParsedFile =
  pf_ast :: node
  pf_source :: string

record FunctionDefinitionResult =
  fd_body :: "node option"
  fd_file :: string
  fd_line :: nat
  isArrowShorthand :: bool
  fd_hookAliases :: "string \<rightharpoonup> string"

text \<open>
  \<open>parseFile\<close> reads and parses a file; its cache of parsed files is not observable
  while the files do not change and is left out.
\<close>

definition parseFile ::
  "(string \<Rightarrow> string option) \<Rightarrow> (string \<Rightarrow> string \<Rightarrow> node option) \<Rightarrow> string \<Rightarrow> ParsedFile option" where
  "parseFile readFile parse filePath =
     (case readFile filePath of
        None \<Rightarrow> None
      | Some src \<Rightarrow>
          (case parse filePath src of
             None \<Rightarrow> None
           | Some program \<Rightarrow> Some \<lparr>pf_ast = program, pf_source = src\<rparr>))"

definition findFunctionEnter ::
  "string \<Rightarrow> string \<Rightarrow> ParsedFile \<Rightarrow> (string \<rightharpoonup> string) \<Rightarrow> node
     \<Rightarrow> FunctionDefinitionResult option \<Rightarrow> FunctionDefinitionResult option" where
  "findFunctionEnter name filePath parsed aliases n result =
     (if result \<noteq> None then result
      else if ntype n = ''FunctionDeclaration'' \<and> typeIs (child n ''id'') ''Identifier'' \<and>
              nameOf (child n ''id'') = name
      then (case child n ''body'' of
              None \<Rightarrow> result
            | Some body \<Rightarrow>
                Some \<lparr>fd_body = Some body, fd_file = filePath,
                      fd_line = offsetToLine (pf_source parsed) (start n),
                      isArrowShorthand = False, fd_hookAliases = aliases\<rparr>)
      else if ntype n = ''VariableDeclarator'' \<and> typeIs (child n ''id'') ''Identifier'' \<and>
              nameOf (child n ''id'') = name
      then (if typeIs (child n ''init'') ''ArrowFunctionExpression'' \<or>
               typeIs (child n ''init'') ''FunctionExpression''
            then Some \<lparr>fd_body = child (the (child n ''init'')) ''body'', fd_file = filePath,
                       fd_line = offsetToLine (pf_source parsed) (start n),
                       isArrowShorthand =
                         (typeIs (child n ''init'') ''ArrowFunctionExpression'' \<and>
                          \<not> typeIs (child (the (child n ''init'')) ''body'') ''FunctionBody''),
                       fd_hookAliases = aliases\<rparr>
            else result)
      else result)"

definition findFunctionInFile ::
  "(string \<Rightarrow> string option) \<Rightarrow> (string \<Rightarrow> string \<Rightarrow> node option) \<Rightarrow> string \<Rightarrow> string
     \<Rightarrow> FunctionDefinitionResult option" where
  "findFunctionInFile readFile parse name filePath =
     (case parseFile readFile parse filePath of
        None \<Rightarrow> None
      | Some parsed \<Rightarrow>
          walk (findFunctionEnter name filePath parsed (getRecoilHookAliases (pf_ast parsed)))
            no_leave (pf_ast parsed) None)"

text \<open>
  \<open>resolveModule specifier fromFile\<close> is \<open>resolveModulePath\<close>, which probes the file
  system for the file a module specifier names.
\<close>

definition addImportRecord :: "string \<Rightarrow> node \<Rightarrow> ImportRecord list \<Rightarrow> ImportRecord list" where
  "addImportRecord resolvedSource spec records =
     (if ntype spec \<noteq> ''ImportSpecifier'' \<or> attr spec ''importKind'' = Some ''type'' then records
      else
        (let imported = nameOf (child spec ''imported'');
             local = nameOf (child spec ''local'')
         in if imported \<noteq> [] \<and> local \<noteq> []
            then records @ [\<lparr>imp_localName = local, imp_exportedName = imported,
                             imp_sourceFile = resolvedSource\<rparr>]
            else records))"

definition addNamedReExport :: "string \<Rightarrow> node \<Rightarrow> ReExportRecord list \<Rightarrow> ReExportRecord list" where
  "addNamedReExport resolvedSource spec records =
     (let exported = nameOf (child spec ''exported'');
          local = nameOf (child spec ''local'')
      in if exported \<noteq> [] \<and> local \<noteq> []
         then records @ [Named exported local resolvedSource]
         else records)"

definition importsExportsEnter ::
  "(string \<Rightarrow> string \<Rightarrow> string option) \<Rightarrow> string \<Rightarrow> node
     \<Rightarrow> ImportRecord list \<times> ReExportRecord list \<Rightarrow> ImportRecord list \<times> ReExportRecord list" where
  "importsExportsEnter resolveModule filePath n st =
     (case st of (imps, reExps) \<Rightarrow>
        if ntype n = ''ImportDeclaration'' then
          (if \<not> truthy (importSourceOf n) \<or> attr n ''importKind'' = Some ''type'' then st
           else
             (case resolveModule (the (importSourceOf n)) filePath of
                None \<Rightarrow> st
              | Some resolvedSource \<Rightarrow>
                  (fold (addImportRecord resolvedSource) (childList n ''specifiers'') imps, reExps)))
        else if ntype n = ''ExportNamedDeclaration'' then
          (if \<not> truthy (importSourceOf n) then st
           else
             (case resolveModule (the (importSourceOf n)) filePath of
                None \<Rightarrow> st
              | Some resolvedSource \<Rightarrow>
                  (imps, fold (addNamedReExport resolvedSource) (childList n ''specifiers'') reExps)))
        else if ntype n = ''ExportAllDeclaration'' then
          (if \<not> truthy (importSourceOf n) then st
           else
             (case resolveModule (the (importSourceOf n)) filePath of
                None \<Rightarrow> st
              | Some resolvedSource \<Rightarrow> (imps, reExps @ [Star resolvedSource])))
        else st)"

definition collectFileImportsAndExports ::
  "(string \<Rightarrow> string \<Rightarrow> string option) \<Rightarrow> string \<Rightarrow> node
     \<Rightarrow> ImportRecord list \<times> ReExportRecord list" where
  "collectFileImportsAndExports resolveModule filePath program =
     walk (importsExportsEnter resolveModule filePath) no_leave program ([], [])"

record Runtime =
  rt_readFile :: "string \<Rightarrow> string option"
  rt_parse :: "string \<Rightarrow> string \<Rightarrow> node option"
  rt_resolveModule :: "string \<Rightarrow> string \<Rightarrow> string option"

function followExportChain ::
  "Runtime \<Rightarrow> string \<Rightarrow> string \<Rightarrow> nat \<Rightarrow> string set \<Rightarrow> (string \<times> string) option \<times> string set"
and followStarReExports ::
  "Runtime \<Rightarrow> ReExportRecord list \<Rightarrow> string \<Rightarrow> nat \<Rightarrow> string set
     \<Rightarrow> (string \<times> string) option \<times> string set"
where
  "followExportChain rt name filePath d visited =
     (if d > maxChainDepth then (None, visited)
      else if filePath @ '':'' @ name \<in> visited then (None, visited)
      else
        (let visited1 = insert (filePath @ '':'' @ name) visited
         in if findFunctionInFile (rt_readFile rt) (rt_parse rt) name filePath \<noteq> None
            then (Some (filePath, name), visited1)
            else
              (case parseFile (rt_readFile rt) (rt_parse rt) filePath of
                 None \<Rightarrow> (None, visited1)
               | Some parsed \<Rightarrow>
                  (case collectFileImportsAndExports (rt_resolveModule rt) filePath (pf_ast parsed) of
                     (imps, reExps) \<Rightarrow>
                       (case find (is_named_for name) reExps of
                          Some (Named l e s) \<Rightarrow> followExportChain rt e s (d + 1) visited1
                        | _ \<Rightarrow>
                           (case followStarReExports rt reExps name d visited1 of
                              (Some result, visited2) \<Rightarrow> (Some result, visited2)
                            | (None, visited2) \<Rightarrow>
                               (case find (\<lambda>i. imp_localName i = name) imps of
                                  Some importRecord \<Rightarrow>
                                    followExportChain rt (imp_exportedName importRecord)
                                      (imp_sourceFile importRecord) (d + 1) visited2
                                | None \<Rightarrow> (None, visited2))))))))"
| "followStarReExports rt [] name d visited = (None, visited)"
| "followStarReExports rt (Named l e s # rest) name d visited =
     followStarReExports rt rest name d visited"
| "followStarReExports rt (Star s # rest) name d visited =
     (case followExportChain rt name s (d + 1) visited of
        (Some result, visited1) \<Rightarrow> (Some result, visited1)
      | (None, visited1) \<Rightarrow> followStarReExports rt rest name d visited1)"
  by pat_completeness auto

termination
  by (relation "measures
     [\<lambda>x. case x of Inl (rt, name, filePath, d, visited) \<Rightarrow> 8 - d
                   | Inr (rt, rs, name, d, visited) \<Rightarrow> 7 - d,
      \<lambda>x. case x of Inl (rt, name, filePath, d, visited) \<Rightarrow> 0
                   | Inr (rt, rs, name, d, visited) \<Rightarrow> Suc (length rs)]")
     (auto simp: maxChainDepth_def)

declare followExportChain.simps [simp del]

text \<open>
  The loop of \<open>resolveCalleeToFunctionDefinition\<close> over the import records: a record of
  the callee returns what the export chain leads to, or else what the source file
  itself defines; when neither exists the loop goes on to the next record.
\<close>

fun resolveViaImports ::
  "Runtime \<Rightarrow> string \<Rightarrow> ImportRecord list \<Rightarrow> FunctionDefinitionResult option" where
  "resolveViaImports rt calleeName [] = None"
| "resolveViaImports rt calleeName (importRecord # rest) =
     (if imp_localName importRecord = calleeName then
        (case fst (followExportChain rt (imp_exportedName importRecord)
                     (imp_sourceFile importRecord) 1 {}) of
           Some (sourceFile, exportedName) \<Rightarrow>
             findFunctionInFile (rt_readFile rt) (rt_parse rt) exportedName sourceFile
         | None \<Rightarrow>
            (case findFunctionInFile (rt_readFile rt) (rt_parse rt) (imp_exportedName importRecord)
                    (imp_sourceFile importRecord) of
               Some directDef \<Rightarrow> Some directDef
             | None \<Rightarrow> resolveViaImports rt calleeName rest))
      else resolveViaImports rt calleeName rest)"

definition resolveCalleeToFunctionDefinition ::
  "Runtime \<Rightarrow> string \<Rightarrow> string \<Rightarrow> FunctionDefinitionResult option" where
  "resolveCalleeToFunctionDefinition rt calleeName f =
     (case findFunctionInFile (rt_readFile rt) (rt_parse rt) calleeName f of
        Some localDef \<Rightarrow> Some localDef
      | None \<Rightarrow>
         (case parseFile (rt_readFile rt) (rt_parse rt) f of
            None \<Rightarrow> None
          | Some parsed \<Rightarrow>
              resolveViaImports rt calleeName
                (fst (collectFileImportsAndExports (rt_resolveModule rt) f (pf_ast parsed)))))"

definition firstReturnEnter :: "node \<Rightarrow> node option \<Rightarrow> node option" where
  "firstReturnEnter n result =
     (if result \<noteq> None then result
      else if ntype n = ''FunctionDeclaration'' \<or> ntype n = ''FunctionExpression'' \<or>
              ntype n = ''ArrowFunctionExpression''
      then result
      else if ntype n = ''ReturnStatement'' then
        (case child n ''argument'' of None \<Rightarrow> result | Some argument \<Rightarrow> Some argument)
      else result)"

definition findFirstReturnInOwnScope :: "node \<Rightarrow> node option" where
  "findFirstReturnInOwnScope blockNode = walk firstReturnEnter no_leave blockNode None"

definition getReturnExpression :: "FunctionDefinitionResult \<Rightarrow> node option" where
  "getReturnExpression functionDef =
     (if isArrowShorthand functionDef then fd_body functionDef
      else (case fd_body functionDef of
              None \<Rightarrow> None
            | Some body \<Rightarrow> findFirstReturnInOwnScope body))"

definition analyzeWrapperReturnExpression :: "FunctionDefinitionResult \<Rightarrow> HookWriteBinding option" where
  "analyzeWrapperReturnExpression functionDef =
     (case getReturnExpression functionDef of
        None \<Rightarrow> None
      | Some returnExpr \<Rightarrow>
          if ntype returnExpr = ''CallExpression''
          then resolveDirectHookWriteBinding returnExpr (fd_hookAliases functionDef)
          else None)"

definition functionKey :: "FunctionDefinitionResult \<Rightarrow> string" where
  "functionKey functionDef = fd_file functionDef @ '':'' @ string_of_nat (fd_line functionDef)"

text \<open>
  \<open>resolveHookWriteBinding\<close> returns the binding and the wrapper cache, which it
  updates when it analyses a wrapper for the first time.  A cached \<open>null\<close> is
  \<open>Some None\<close>.
\<close>

definition resolveHookWriteBinding ::
  "Runtime \<Rightarrow> node \<Rightarrow> string \<Rightarrow> (string \<rightharpoonup> string) \<Rightarrow> (string \<rightharpoonup> HookWriteBinding option)
     \<Rightarrow> HookWriteBinding option \<times> (string \<rightharpoonup> HookWriteBinding option)" where
  "resolveHookWriteBinding rt callExpr f aliases wrapperCache =
     (case resolveDirectHookWriteBinding callExpr aliases of
        Some directBinding \<Rightarrow> (Some directBinding, wrapperCache)
      | None \<Rightarrow>
          if \<not> typeIs (child callExpr ''callee'') ''Identifier'' then (None, wrapperCache)
          else
            (case resolveCalleeToFunctionDefinition rt (nameOf (child callExpr ''callee'')) f of
               None \<Rightarrow> (None, wrapperCache)
             | Some functionDef \<Rightarrow>
                 (case wrapperCache (functionKey functionDef) of
                    Some cached \<Rightarrow> (cached, wrapperCache)
                  | None \<Rightarrow>
                      (let binding = analyzeWrapperReturnExpression functionDef
                       in (binding, wrapperCache(functionKey functionDef \<mapsto> binding))))))"

definition bindSetterIdentifiers ::
  "node \<Rightarrow> HookWriteBinding \<Rightarrow> string \<Rightarrow> (string \<rightharpoonup> string) \<Rightarrow> (string \<rightharpoonup> string)" where
  "bindSetterIdentifiers declarator binding f setterBindings =
     (if bindingKind binding = setterBinding \<and> typeIs (child declarator ''id'') ''Identifier''
      then setterBindings(f @ '':'' @ nameOf (child declarator ''id'') \<mapsto> stateId binding)
      else if bindingKind binding = tupleBinding \<and> typeIs (child declarator ''id'') ''ArrayPattern''
      then (case childList (the (child declarator ''id'')) ''elements'' of
              e0 # setterElement # rest \<Rightarrow>
                if ntype setterElement = ''Identifier''
                then setterBindings(f @ '':'' @ nameOf (Some setterElement) \<mapsto> stateId binding)
                else setterBindings
            | _ \<Rightarrow> setterBindings)
      else setterBindings)"

text \<open>
  The state of \<open>buildSetterBindings\<close>: the binding map, the wrapper cache and the set of
  resolved factory keys.  Its second parameter, the extraction result, is not read by
  the source and is left out.
\<close>

record BindingState =
  bs_setterBindings :: "string \<rightharpoonup> string"
  bs_wrapperCache :: "string \<rightharpoonup> HookWriteBinding option"
  bs_resolvedFactoryKeys :: "string set"

definition bindingsEnter ::
  "Runtime \<Rightarrow> string \<Rightarrow> (string \<rightharpoonup> string) \<Rightarrow> node \<Rightarrow> BindingState \<Rightarrow> BindingState" where
  "bindingsEnter rt f aliases n st =
     (if ntype n \<noteq> ''VariableDeclarator'' \<or> \<not> typeIs (child n ''init'') ''CallExpression'' then st
      else
        (let callExpr = the (child n ''init'')
         in case resolveHookWriteBinding rt callExpr f aliases (bs_wrapperCache st) of
              (None, cache1) \<Rightarrow> st\<lparr>bs_wrapperCache := cache1\<rparr>
            | (Some binding, cache1) \<Rightarrow>
                (let st1 = st\<lparr>bs_wrapperCache := cache1,
                               bs_setterBindings := bindSetterIdentifiers n binding f (bs_setterBindings st)\<rparr>
                 in if resolveDirectHookWriteBinding callExpr aliases \<noteq> None then st1
                    else if nameOf (child callExpr ''callee'') = [] then st1
                    else
                      (case resolveCalleeToFunctionDefinition rt (nameOf (child callExpr ''callee'')) f of
                         None \<Rightarrow> st1
                       | Some functionDef \<Rightarrow>
                           st1\<lparr>bs_resolvedFactoryKeys :=
                                 insert (functionKey functionDef) (bs_resolvedFactoryKeys st1)\<rparr>))))"

definition bindingsOfFile :: "Runtime \<Rightarrow> string \<Rightarrow> BindingState \<Rightarrow> BindingState" where
  "bindingsOfFile rt f st =
     (case parseFile (rt_readFile rt) (rt_parse rt) f of
        None \<Rightarrow> st
      | Some parsed \<Rightarrow>
          walk (bindingsEnter rt f (getRecoilHookAliases (pf_ast parsed))) no_leave (pf_ast parsed) st)"

definition buildSetterBindings :: "Runtime \<Rightarrow> string list \<Rightarrow> BindingState" where
  "buildSetterBindings rt files =
     fold (bindingsOfFile rt) files
       \<lparr>bs_setterBindings = Map.empty, bs_wrapperCache = Map.empty, bs_resolvedFactoryKeys = {}\<rparr>"

section \<open>Runtime callsites (setter-callsites.ts)\<close>

definition callsiteEnter ::
  "string \<Rightarrow> string \<Rightarrow> (string \<rightharpoonup> string) \<Rightarrow> node \<Rightarrow> RuntimeWriteCallsite list
     \<Rightarrow> RuntimeWriteCallsite list" where
  "callsiteEnter f src bindings n callsites =
     (if ntype n \<noteq> ''CallExpression'' then callsites
      else if \<not> typeIs (child n ''callee'') ''Identifier'' then callsites
      else
        (case bindings (f @ '':'' @ nameOf (child n ''callee'')) of
           None \<Rightarrow> callsites
         | Some name \<Rightarrow>
             if name = [] then callsites
             else callsites @
                    [\<lparr>cs_atomName = name, cs_file = f,
                      cs_line = offsetToLine src (start (the (child n ''callee''))),
                      cs_calleeName = nameOf (child n ''callee'')\<rparr>]))"

definition callsitesOfFile ::
  "Runtime \<Rightarrow> (string \<rightharpoonup> string) \<Rightarrow> string \<Rightarrow> RuntimeWriteCallsite list \<Rightarrow> RuntimeWriteCallsite list" where
  "callsitesOfFile rt bindings f callsites =
     (case rt_readFile rt f of
        None \<Rightarrow> callsites
      | Some src \<Rightarrow>
          (case rt_parse rt f src of
             None \<Rightarrow> callsites
           | Some program \<Rightarrow> walk (callsiteEnter f src bindings) no_leave program callsites))"

definition collectRuntimeWriteCallsites ::
  "Runtime \<Rightarrow> string list \<Rightarrow> (string \<rightharpoonup> string) \<Rightarrow> RuntimeWriteCallsite list" where
  "collectRuntimeWriteCallsites rt files bindings = fold (callsitesOfFile rt bindings) files []"

section \<open>Concrete inputs\<close>

definition exampleDefinition :: "string \<Rightarrow> StateKind \<Rightarrow> string \<Rightarrow> RecoilDefinition" where
  "exampleDefinition n k f =
     \<lparr>def_name = n, def_kind = k, def_file = f, def_line = 1,
      getBodyAst = None, inlineDefaultGetBody = None\<rparr>"

definition chain7 :: DependencyGraph where
  "chain7 =
     \<lparr>dependentSelectors =
        [''base'' \<mapsto> [''s1''], ''s1'' \<mapsto> [''s2''], ''s2'' \<mapsto> [''s3''], ''s3'' \<mapsto> [''s4''],
         ''s4'' \<mapsto> [''s5''], ''s5'' \<mapsto> [''s6''], ''s6'' \<mapsto> [''s7'']],
      componentUsages = Map.empty,
      definitions = [''base'' \<mapsto> exampleDefinition ''base'' atom ''/test/atoms.ts'']\<rparr>"

definition diamondCycle :: DependencyGraph where
  "diamondCycle =
     \<lparr>dependentSelectors =
        [''base'' \<mapsto> [''left'', ''right''], ''left'' \<mapsto> [''join''], ''right'' \<mapsto> [''join''],
         ''join'' \<mapsto> [''left'']],
      componentUsages = Map.empty,
      definitions = [''base'' \<mapsto> exampleDefinition ''base'' atom ''/test/atoms.ts'']\<rparr>"

definition exampleUsage :: "string \<Rightarrow> UsageType \<Rightarrow> string \<Rightarrow> string \<Rightarrow> nat \<Rightarrow> ResolvedUsage" where
  "exampleUsage n t h f l =
     \<lparr>atomName = n, localName = n, usageType = t, hook = h, usage_file = f, usage_line = l,
      enclosingDefinition = None, resolvedName = n, definitionFile = ''/test/atoms.ts'',
      writerKind = None\<rparr>"

definition coverageGraph :: DependencyGraph where
  "coverageGraph =
     \<lparr>dependentSelectors = Map.empty,
      componentUsages =
        [''fooState'' \<mapsto>
           [exampleUsage ''fooState'' reader ''useRecoilValue'' ''/test/view.tsx'' 3,
            exampleUsage ''fooState'' setter ''useSetRecoilState'' ''/test/wrapper-hooks.ts'' 5,
            exampleUsage ''fooState'' setter ''useSetRecoilState'' ''/test/unsupported-wrapper.ts'' 15]],
      definitions = [''fooState'' \<mapsto> exampleDefinition ''fooState'' atom ''/test/atoms.ts'']\<rparr>"

definition coverageExample :: CoverageOptions where
  "coverageExample =
     \<lparr>runtimeCallsites =
        [\<lparr>cs_atomName = ''barState'', cs_file = ''/test/other.tsx'', cs_line = 7, cs_calleeName = ''setBar''\<rparr>,
         \<lparr>cs_atomName = ''fooState'', cs_file = ''/test/consumer.tsx'', cs_line = 42, cs_calleeName = ''setFoo''\<rparr>],
      resolvedFactoryKeys = {''/test/wrapper-hooks.ts:5''}\<rparr>"

text \<open>
  Two files that re-export \<open>x\<close> from each other; \<open>a.ts\<close> also imports a helper and
  defines the unrelated atom \<open>y\<close>.  A third file imports \<open>x\<close> from \<open>a.ts\<close>.
\<close>

definition cycleGraph :: FileGraph where
  "cycleGraph =
     [''/t/a.ts'' \<mapsto>
        \<lparr>importRecords = [\<lparr>imp_localName = ''helper'', imp_exportedName = ''helper'', imp_sourceFile = ''/t/util.ts''\<rparr>],
         reExports = [Named ''x'' ''x'' ''/t/b.ts''], localExports = {''y''}\<rparr>,
      ''/t/b.ts'' \<mapsto> \<lparr>importRecords = [], reExports = [Named ''x'' ''x'' ''/t/a.ts''], localExports = {}\<rparr>,
      ''/t/c.tsx'' \<mapsto>
        \<lparr>importRecords = [\<lparr>imp_localName = ''x'', imp_exportedName = ''x'', imp_sourceFile = ''/t/a.ts''\<rparr>],
         reExports = [], localExports = {}\<rparr>]"

text \<open>The same cycle made of wildcard re-exports.\<close>

definition starCycleGraph :: FileGraph where
  "starCycleGraph =
     [''/t/a.ts'' \<mapsto> \<lparr>importRecords = [], reExports = [Star ''/t/b.ts''], localExports = {''y''}\<rparr>,
      ''/t/b.ts'' \<mapsto> \<lparr>importRecords = [], reExports = [Star ''/t/a.ts''], localExports = {}\<rparr>,
      ''/t/c.tsx'' \<mapsto>
        \<lparr>importRecords = [\<lparr>imp_localName = ''x'', imp_exportedName = ''x'', imp_sourceFile = ''/t/a.ts''\<rparr>],
         reExports = [], localExports = {}\<rparr>]"

definition cycleExtraction :: ExtractionResult where
  "cycleExtraction = \<lparr>recoilDefinitions = [exampleDefinition ''y'' atom ''/t/a.ts'']\<rparr>"

definition cycleUsage :: Usage where
  "cycleUsage =
     \<lparr>atomName = ''x'', localName = ''x'', usageType = reader, hook = ''useRecoilValue'',
      usage_file = ''/t/c.tsx'', usage_line = 3, enclosingDefinition = None\<rparr>"

definition variableBoundSource :: string where
  "variableBoundSource =
     ''const initializeFoo = (set) => {'' @ [CHR 0x0A] @ ''  set(fooState, 1);'' @ [CHR 0x0A] @ ''};'' @ [CHR 0x0A]"

definition variableBoundProgram :: node where
  "variableBoundProgram =
     Node '''' ''Program'' 0 []
       [Node ''body'' ''VariableDeclaration'' 0 [(''kind'', ''const'')]
          [Node ''declarations'' ''VariableDeclarator'' 6 []
             [Node ''id'' ''Identifier'' 6 [(''name'', ''initializeFoo'')] [],
              Node ''init'' ''ArrowFunctionExpression'' 22 []
                [Node ''params'' ''Identifier'' 23 [(''name'', ''set'')] [],
                 Node ''body'' ''FunctionBody'' 31 []
                   [Node ''body'' ''ExpressionStatement'' 35 []
                      [Node ''expression'' ''CallExpression'' 35 []
                         [Node ''callee'' ''Identifier'' 35 [(''name'', ''set'')] [],
                          Node ''arguments'' ''Identifier'' 39 [(''name'', ''fooState'')] [],
                          Node ''arguments'' ''Literal'' 49 [(''value'', ''1'')] []]]]]]]]"

definition declaredInitializerSource :: string where
  "declaredInitializerSource =
     ''function initializeFoo(set) {'' @ [CHR 0x0A] @ ''  set(fooState, 1);'' @ [CHR 0x0A] @ ''}'' @ [CHR 0x0A]"

definition declaredInitializerProgram :: node where
  "declaredInitializerProgram =
     Node '''' ''Program'' 0 []
       [Node ''body'' ''FunctionDeclaration'' 0 []
          [Node ''id'' ''Identifier'' 9 [(''name'', ''initializeFoo'')] [],
           Node ''params'' ''Identifier'' 23 [(''name'', ''set'')] [],
           Node ''body'' ''FunctionBody'' 28 []
             [Node ''body'' ''ExpressionStatement'' 32 []
                [Node ''expression'' ''CallExpression'' 32 []
                   [Node ''callee'' ''Identifier'' 32 [(''name'', ''set'')] [],
                    Node ''arguments'' ''Identifier'' 36 [(''name'', ''fooState'')] [],
                    Node ''arguments'' ''Literal'' 46 [(''value'', ''1'')] []]]]]]"

definition componentSource :: string where
  "componentSource =
     ''import {useSetRecoilState} from 'recoil';'' @ [CHR 0x0A] @ ''import {fooState} from './atoms';'' @ [CHR 0x0A] @ ''export function Component() {'' @ [CHR 0x0A] @ ''  const setFoo = useSetRecoilState(fooState);'' @ [CHR 0x0A] @ ''  setFoo(1);'' @ [CHR 0x0A] @ ''  return null;'' @ [CHR 0x0A] @ ''}'' @ [CHR 0x0A]"

definition componentProgram :: node where
  "componentProgram =
     Node '''' ''Program'' 0 []
       [Node ''body'' ''ImportDeclaration'' 0 [(''importKind'', ''value'')]
          [Node ''specifiers'' ''ImportSpecifier'' 8 [(''importKind'', ''value'')]
             [Node ''imported'' ''Identifier'' 8 [(''name'', ''useSetRecoilState'')] [],
              Node ''local'' ''Identifier'' 8 [(''name'', ''useSetRecoilState'')] []],
           Node ''source'' ''Literal'' 32 [(''value'', ''recoil'')] []],
        Node ''body'' ''ImportDeclaration'' 42 [(''importKind'', ''value'')]
          [Node ''specifiers'' ''ImportSpecifier'' 50 [(''importKind'', ''value'')]
             [Node ''imported'' ''Identifier'' 50 [(''name'', ''fooState'')] [],
              Node ''local'' ''Identifier'' 50 [(''name'', ''fooState'')] []],
           Node ''source'' ''Literal'' 65 [(''value'', ''./atoms'')] []],
        Node ''body'' ''ExportNamedDeclaration'' 76 []
          [Node ''declaration'' ''FunctionDeclaration'' 83 []
             [Node ''id'' ''Identifier'' 92 [(''name'', ''Component'')] [],
              Node ''body'' ''FunctionBody'' 104 []
                [Node ''body'' ''VariableDeclaration'' 108 [(''kind'', ''const'')]
                   [Node ''declarations'' ''VariableDeclarator'' 114 []
                      [Node ''id'' ''Identifier'' 114 [(''name'', ''setFoo'')] [],
                       Node ''init'' ''CallExpression'' 123 []
                         [Node ''callee'' ''Identifier'' 123 [(''name'', ''useSetRecoilState'')] [],
                          Node ''arguments'' ''Identifier'' 141 [(''name'', ''fooState'')] []]]],
                 Node ''body'' ''ExpressionStatement'' 154 []
                   [Node ''expression'' ''CallExpression'' 154 []
                      [Node ''callee'' ''Identifier'' 154 [(''name'', ''setFoo'')] [],
                       Node ''arguments'' ''Literal'' 161 [(''value'', ''1'')] []]],
                 Node ''body'' ''ReturnStatement'' 167 []
                   [Node ''argument'' ''Literal'' 174 [(''value'', ''null'')] []]]]]]"

text \<open>
  A module with two selectors and an atom whose default is an inline selector;
  \<open>doubleFoo\<close> and the default of \<open>barState\<close> both read \<open>fooState\<close>.
\<close>

definition selectorSource :: string where
  "selectorSource =
     ''import {atom, selector} from 'recoil';'' @ [CHR 0x0A] @ ''import {fooState} from './atoms';'' @ [CHR 0x0A] @ ''export const doubleFoo = selector({'' @ [CHR 0x0A] @ ''  key: 'doubleFoo','' @ [CHR 0x0A] @ ''  get: ({get}) => get(fooState) * 2,'' @ [CHR 0x0A] @ ''});'' @ [CHR 0x0A] @ ''export const tripleFoo = selector({'' @ [CHR 0x0A] @ ''  key: 'tripleFoo','' @ [CHR 0x0A] @ ''  get: ({get}) => get(doubleFoo) * 3,'' @ [CHR 0x0A] @ ''});'' @ [CHR 0x0A] @ ''export const barState = atom({'' @ [CHR 0x0A] @ ''  key: 'barState','' @ [CHR 0x0A] @ ''  default: selector({'' @ [CHR 0x0A] @ ''    key: 'barState/default','' @ [CHR 0x0A] @ ''    get: ({get}) => get(fooState) + 1,'' @ [CHR 0x0A] @ ''  }),'' @ [CHR 0x0A] @ ''});'' @ [CHR 0x0A]"

definition selectorGetBody :: node where
  "selectorGetBody =
     Node ''body'' ''BinaryExpression'' 147 [(''operator'', ''*'')]
       [Node ''left'' ''CallExpression'' 147 []
          [Node ''callee'' ''Identifier'' 147 [(''name'', ''get'')] [],
           Node ''arguments'' ''Identifier'' 151 [(''name'', ''fooState'')] []],
        Node ''right'' ''Literal'' 163 [(''value'', ''2'')] []]"

definition tripleGetBody :: node where
  "tripleGetBody =
     Node ''body'' ''BinaryExpression'' 244 [(''operator'', ''*'')]
       [Node ''left'' ''CallExpression'' 244 []
          [Node ''callee'' ''Identifier'' 244 [(''name'', ''get'')] [],
           Node ''arguments'' ''Identifier'' 248 [(''name'', ''doubleFoo'')] []],
        Node ''right'' ''Literal'' 261 [(''value'', ''3'')] []]"

definition barDefaultGetBody :: node where
  "barDefaultGetBody =
     Node ''body'' ''BinaryExpression'' 389 [(''operator'', ''+'')]
       [Node ''left'' ''CallExpression'' 389 []
          [Node ''callee'' ''Identifier'' 389 [(''name'', ''get'')] [],
           Node ''arguments'' ''Identifier'' 393 [(''name'', ''fooState'')] []],
        Node ''right'' ''Literal'' 405 [(''value'', ''1'')] []]"

definition viewSource :: string where
  "viewSource =
     ''import {useRecoilValue} from 'recoil';'' @ [CHR 0x0A] @ ''import {doubleFoo} from './selectors';'' @ [CHR 0x0A] @ ''export function View() {'' @ [CHR 0x0A] @ ''  return useRecoilValue(doubleFoo);'' @ [CHR 0x0A] @ ''}'' @ [CHR 0x0A]"

definition viewProgram :: node where
  "viewProgram =
     Node '''' ''Program'' 0 []
       [Node ''body'' ''ImportDeclaration'' 0 [(''importKind'', ''value'')]
          [Node ''specifiers'' ''ImportSpecifier'' 8 [(''importKind'', ''value'')]
             [Node ''imported'' ''Identifier'' 8 [(''name'', ''useRecoilValue'')] [],
              Node ''local'' ''Identifier'' 8 [(''name'', ''useRecoilValue'')] []],
           Node ''source'' ''Literal'' 29 [(''value'', ''recoil'')] []],
        Node ''body'' ''ImportDeclaration'' 39 [(''importKind'', ''value'')]
          [Node ''specifiers'' ''ImportSpecifier'' 47 [(''importKind'', ''value'')]
             [Node ''imported'' ''Identifier'' 47 [(''name'', ''doubleFoo'')] [],
              Node ''local'' ''Identifier'' 47 [(''name'', ''doubleFoo'')] []],
           Node ''source'' ''Literal'' 63 [(''value'', ''./selectors'')] []],
        Node ''body'' ''ExportNamedDeclaration'' 78 []
          [Node ''declaration'' ''FunctionDeclaration'' 85 []
             [Node ''id'' ''Identifier'' 94 [(''name'', ''View'')] [],
              Node ''body'' ''FunctionBody'' 101 []
                [Node ''body'' ''ReturnStatement'' 105 []
                   [Node ''argument'' ''CallExpression'' 112 []
                      [Node ''callee'' ''Identifier'' 112 [(''name'', ''useRecoilValue'')] [],
                       Node ''arguments'' ''Identifier'' 127 [(''name'', ''doubleFoo'')] []]]]]]]"

text \<open>A file system with the five files above and a parser that yields their programs.\<close>

definition exampleRead :: "string \<Rightarrow> string option" where
  "exampleRead filePath =
     [''/test/initialize-const.ts'' \<mapsto> variableBoundSource,
      ''/test/initialize.ts'' \<mapsto> declaredInitializerSource,
      ''/test/component.tsx'' \<mapsto> componentSource,
      ''/test/selectors.ts'' \<mapsto> selectorSource,
      ''/test/view.tsx'' \<mapsto> viewSource] filePath"

definition exampleParse :: "string \<Rightarrow> string \<Rightarrow> node option" where
  "exampleParse filePath src =
     [''/test/initialize-const.ts'' \<mapsto> variableBoundProgram,
      ''/test/initialize.ts'' \<mapsto> declaredInitializerProgram,
      ''/test/component.tsx'' \<mapsto> componentProgram,
      ''/test/view.tsx'' \<mapsto> viewProgram] filePath"

definition exampleRuntime :: Runtime where
  "exampleRuntime =
     \<lparr>rt_readFile = exampleRead, rt_parse = exampleParse, rt_resolveModule = (\<lambda>specifier fromFile. None)\<rparr>"

definition selectorExtraction :: ExtractionResult where
  "selectorExtraction =
     \<lparr>recoilDefinitions =
        [\<lparr>def_name = ''doubleFoo'', def_kind = selector, def_file = ''/test/selectors.ts'',
          def_line = 3, getBodyAst = Some selectorGetBody, inlineDefaultGetBody = None\<rparr>,
         \<lparr>def_name = ''tripleFoo'', def_kind = selector, def_file = ''/test/selectors.ts'',
          def_line = 7, getBodyAst = Some tripleGetBody, inlineDefaultGetBody = None\<rparr>,
         \<lparr>def_name = ''barState'', def_kind = atom, def_file = ''/test/selectors.ts'',
          def_line = 11, getBodyAst = None, inlineDefaultGetBody = Some barDefaultGetBody\<rparr>]\<rparr>"

section \<open>Properties of the impact engine\<close>

subsection \<open>Auxiliary facts\<close>

lemma bfs_via_distinct:
  "distinct (map via acc) \<Longrightarrow> set (map via acc) \<subseteq> visited \<Longrightarrow>
   distinct (map via (bfs graph queue visited acc))"
proof (induction graph queue visited acc rule: bfs.induct)
  case (1 graph visited acc)
  then show ?case by simp
next
  case (2 graph selectorName d queue visited acc)
  show ?case
  proof (cases "d > maxDepth \<or> selectorName \<in> visited")
    case True
    with 2 show ?thesis by auto
  next
    case False
    then have "selectorName \<notin> set (map via acc)" using 2(5) by auto
    with False 2 show ?thesis
      by (auto simp: transitiveEntry_def Let_def)
  qed
qed

lemma bfs_depth_bound:
  "\<forall>t\<in>set acc. depth t \<le> maxDepth \<Longrightarrow>
   \<forall>t\<in>set (bfs graph queue visited acc). depth t \<le> maxDepth"
proof (induction graph queue visited acc rule: bfs.induct)
  case (1 graph visited acc)
  then show ?case by simp
next
  case (2 graph selectorName d queue visited acc)
  show ?case
  proof (cases "d > maxDepth \<or> selectorName \<in> visited")
    case True
    with 2 show ?thesis by auto
  next
    case False
    with 2 show ?thesis
      by (auto simp: transitiveEntry_def Let_def)
  qed
qed

lemma analyzeAtomImpact_Some:
  "definitions graph name = Some d \<Longrightarrow> \<exists>r. analyzeAtomImpact graph name co = Some r"
  by (simp add: analyzeAtomImpact_def Let_def)

lemma analyzeAtomImpact_setters:
  "analyzeAtomImpact graph name co = Some r \<Longrightarrow> definitions graph name = Some d \<Longrightarrow>
   setters (direct r) = mergeSetters d name (filter (\<lambda>u. usageType u = setter) (usages_of graph name)) co"
  by (auto simp: analyzeAtomImpact_def Let_def)

lemma analyzeAtomImpact_transitive:
  "analyzeAtomImpact graph name co = Some r \<Longrightarrow>
   transitive r = bfs graph (map (\<lambda>s. (s, 1)) (dependents_of graph name)) {} []"
  by (auto simp: analyzeAtomImpact_def Let_def split: option.splits)

lemma bfs_chain_step:
  assumes "d \<le> maxDepth" "n \<notin> visited" "dependentSelectors graph n = Some [m]"
    "m \<notin> insert n visited"
  shows "bfs graph [(n, d)] visited acc =
         bfs graph [(m, Suc d)] (insert n visited) (acc @ [transitiveEntry graph n d])"
  using assms by (simp add: dependents_of_def)

lemma fold_index_definition_dom:
  "n \<in> dom m \<or> n \<in> def_name ` set defs \<Longrightarrow> n \<in> dom (fold index_definition defs m)"
proof (induction defs arbitrary: m)
  case Nil
  then show ?case by simp
next
  case (Cons d defs)
  have "n \<in> dom (index_definition d m) \<or> n \<in> def_name ` set defs"
    using Cons.prems by (auto simp: index_definition_def)
  then show ?case
    using Cons.IH by simp
qed

lemma buildDependencyGraph_definitions:
  "d \<in> set (recoilDefinitions extraction) \<Longrightarrow>
   definitions (buildDependencyGraph extraction resolvedUsages) (def_name d) \<noteq> None"
proof -
  assume "d \<in> set (recoilDefinitions extraction)"
  then have "def_name d \<in> dom (fold index_definition (recoilDefinitions extraction) Map.empty)"
    by (intro fold_index_definition_dom) auto
  then show ?thesis
    by (auto simp: buildDependencyGraph_def Let_def)
qed

lemma fold_push_result:
  "\<forall>d\<in>set defs. f d \<noteq> None \<Longrightarrow>
   map Some (fold (\<lambda>d results. push_result (f d) results) defs acc) = map Some acc @ map f defs"
proof (induction defs arbitrary: acc)
  case Nil
  then show ?case by simp
next
  case (Cons d defs)
  then obtain r where "f d = Some r" by auto
  with Cons show ?case by (simp add: push_result_def)
qed

subsection \<open>Coverage merge\<close>

text \<open>
  Claim C1.  For a target present in the graph and coverage options
  \<open>{runtimeCallsites, resolvedFactoryKeys}\<close>, the direct setters list is: one usage-shaped
  entry per runtime callsite of the target, in the callsites' order, with hook
  \<open>setter call\<close> and writer kind \<open>runtime\<close>; followed by the direct setter usages of the
  target whose \<open>file:line\<close> key is not in \<open>resolvedFactoryKeys\<close>, in their original order,
  unchanged but for the writer kind \<open>fallback\<close>.  No entry tagged \<open>fallback\<close> has a key in
  \<open>resolvedFactoryKeys\<close>: a resolved factory site is dropped.
\<close>

theorem coverage_merge_setters:
  assumes "definitions graph name = Some d"
  shows "\<exists>r. analyzeAtomImpact graph name (Some opts) = Some r \<and>
     setters (direct r) =
       map (\<lambda>c. \<lparr>atomName = cs_atomName c, localName = cs_calleeName c, usageType = setter,
                 hook = ''setter call'', usage_file = cs_file c, usage_line = cs_line c,
                 enclosingDefinition = None, resolvedName = cs_atomName c,
                 definitionFile = def_file d, writerKind = Some runtime\<rparr>)
           (filter (\<lambda>c. cs_atomName c = name) (runtimeCallsites opts))
       @ map (\<lambda>f. f\<lparr>writerKind := Some fallback\<rparr>)
           (filter (\<lambda>f. usage_file f @ '':'' @ string_of_nat (usage_line f) \<notin> resolvedFactoryKeys opts)
              (filter (\<lambda>u. usageType u = setter)
                 (case componentUsages graph name of None \<Rightarrow> [] | Some us \<Rightarrow> us))) \<and>
     (\<forall>e\<in>set (setters (direct r)). writerKind e = Some fallback \<longrightarrow>
        usage_file e @ '':'' @ string_of_nat (usage_line e) \<notin> resolvedFactoryKeys opts)"
proof -
  from assms obtain r where r: "analyzeAtomImpact graph name (Some opts) = Some r"
    using analyzeAtomImpact_Some by blast
  have s: "setters (direct r) =
      mergeSetters d name (filter (\<lambda>u. usageType u = setter) (usages_of graph name)) (Some opts)"
    using analyzeAtomImpact_setters [OF r assms] .
  show ?thesis
    using r s
    by (auto simp: mergeSetters_def runtimeUsage_def factoryKey_def usages_of_def Let_def)
qed

theorem coverage_merge_setters_witness:
  "\<exists>r. analyzeAtomImpact coverageGraph ''fooState'' (Some coverageExample) = Some r \<and>
     setters (direct r) =
       [\<lparr>atomName = ''fooState'', localName = ''setFoo'', usageType = setter,
         hook = ''setter call'', usage_file = ''/test/consumer.tsx'', usage_line = 42,
         enclosingDefinition = None, resolvedName = ''fooState'',
         definitionFile = ''/test/atoms.ts'', writerKind = Some runtime\<rparr>,
        \<lparr>atomName = ''fooState'', localName = ''fooState'', usageType = setter,
         hook = ''useSetRecoilState'', usage_file = ''/test/unsupported-wrapper.ts'', usage_line = 15,
         enclosingDefinition = None, resolvedName = ''fooState'',
         definitionFile = ''/test/atoms.ts'', writerKind = Some fallback\<rparr>]"
proof -
  have d: "definitions coverageGraph ''fooState'' = Some (exampleDefinition ''fooState'' atom ''/test/atoms.ts'')"
    by (simp add: coverageGraph_def)
  have k5: "string_of_nat 5 = ''5''" by (simp add: string_of_nat.simps)
  have k15: "string_of_nat 15 = ''15''" by (simp add: string_of_nat.simps)
  obtain r where r: "analyzeAtomImpact coverageGraph ''fooState'' (Some coverageExample) = Some r"
    and s: "setters (direct r) =
       map (\<lambda>c. \<lparr>atomName = cs_atomName c, localName = cs_calleeName c, usageType = setter,
                 hook = ''setter call'', usage_file = cs_file c, usage_line = cs_line c,
                 enclosingDefinition = None, resolvedName = cs_atomName c,
                 definitionFile = def_file (exampleDefinition ''fooState'' atom ''/test/atoms.ts''),
                 writerKind = Some runtime\<rparr>)
           (filter (\<lambda>c. cs_atomName c = ''fooState'') (runtimeCallsites coverageExample))
       @ map (\<lambda>f. f\<lparr>writerKind := Some fallback\<rparr>)
           (filter (\<lambda>f. usage_file f @ '':'' @ string_of_nat (usage_line f)
                         \<notin> resolvedFactoryKeys coverageExample)
              (filter (\<lambda>u. usageType u = setter)
                 (case componentUsages coverageGraph ''fooState'' of None \<Rightarrow> [] | Some us \<Rightarrow> us)))"
    using coverage_merge_setters [OF d, of coverageExample] by blast
  have "setters (direct r) =
       [\<lparr>atomName = ''fooState'', localName = ''setFoo'', usageType = setter,
         hook = ''setter call'', usage_file = ''/test/consumer.tsx'', usage_line = 42,
         enclosingDefinition = None, resolvedName = ''fooState'',
         definitionFile = ''/test/atoms.ts'', writerKind = Some runtime\<rparr>,
        \<lparr>atomName = ''fooState'', localName = ''fooState'', usageType = setter,
         hook = ''useSetRecoilState'', usage_file = ''/test/unsupported-wrapper.ts'', usage_line = 15,
         enclosingDefinition = None, resolvedName = ''fooState'',
         definitionFile = ''/test/atoms.ts'', writerKind = Some fallback\<rparr>]"
    unfolding s
    by (simp add: coverageGraph_def coverageExample_def exampleUsage_def exampleDefinition_def k5 k15)
  with r show ?thesis by blast
qed

text \<open>
  Claim C4.  Without coverage options (legacy mode) the direct setters list is exactly the
  target's direct usages of type \<open>setter\<close>, in their original order, every entry
  unchanged (no writer kind is added, nothing is added or removed): it is the write list
  \<open>premergeSetters\<close> of the computation without coverage merge.
\<close>

theorem legacy_mode_setters:
  assumes "definitions graph name = Some d"
  shows "\<exists>r. analyzeAtomImpact graph name None = Some r \<and>
     setters (direct r) = premergeSetters graph name \<and>
     setters (direct r) =
       filter (\<lambda>u. usageType u = setter)
         (case componentUsages graph name of None \<Rightarrow> [] | Some us \<Rightarrow> us)"
proof -
  from assms obtain r where r: "analyzeAtomImpact graph name None = Some r"
    using analyzeAtomImpact_Some by blast
  have "setters (direct r) =
      mergeSetters d name (filter (\<lambda>u. usageType u = setter) (usages_of graph name)) None"
    using analyzeAtomImpact_setters [OF r assms] .
  then show ?thesis
    using r by (simp add: mergeSetters_def usages_of_def premergeSetters_def)
qed

theorem legacy_mode_setters_witness:
  "\<exists>r. analyzeAtomImpact coverageGraph ''fooState'' None = Some r \<and>
     setters (direct r) =
       [exampleUsage ''fooState'' setter ''useSetRecoilState'' ''/test/wrapper-hooks.ts'' 5,
        exampleUsage ''fooState'' setter ''useSetRecoilState'' ''/test/unsupported-wrapper.ts'' 15]"
proof -
  have d: "definitions coverageGraph ''fooState'' = Some (exampleDefinition ''fooState'' atom ''/test/atoms.ts'')"
    by (simp add: coverageGraph_def)
  obtain r where r: "analyzeAtomImpact coverageGraph ''fooState'' None = Some r"
    and s: "setters (direct r) =
       filter (\<lambda>u. usageType u = setter)
         (case componentUsages coverageGraph ''fooState'' of None \<Rightarrow> [] | Some us \<Rightarrow> us)"
    using legacy_mode_setters [OF d] by blast
  have "setters (direct r) =
       [exampleUsage ''fooState'' setter ''useSetRecoilState'' ''/test/wrapper-hooks.ts'' 5,
        exampleUsage ''fooState'' setter ''useSetRecoilState'' ''/test/unsupported-wrapper.ts'' 15]"
    unfolding s by (simp add: coverageGraph_def exampleUsage_def)
  with r show ?thesis by blast
qed

subsection \<open>Unknown target\<close>

text \<open>
  Claim C8.  For a name that is not a key of the graph's definitions map the result is
  the not-found value, whatever the two other maps of the graph hold: nothing else of
  the graph contributes to the result.  The model has no error branch.
\<close>

theorem unknown_target_not_found:
  assumes "definitions graph name = None"
  shows "analyzeAtomImpact graph name coverageOptions = None \<and>
     (\<forall>ds cu. analyzeAtomImpact
        \<lparr>dependentSelectors = ds, componentUsages = cu, definitions = definitions graph\<rparr>
        name coverageOptions = None)"
  using assms by (simp add: analyzeAtomImpact_def)

theorem unknown_target_not_found_witness:
  "analyzeAtomImpact chain7 ''doesNotExist'' None = None"
proof -
  have "definitions chain7 ''doesNotExist'' = None"
    by (simp add: chain7_def)
  then show ?thesis
    using unknown_target_not_found by blast
qed

subsection \<open>Transitive traversal\<close>

text \<open>
  Claim C3.  For every graph, with diamonds or cycles in the dependents relation or not,
  and every target present in it, the computation returns a result (the traversal is a
  total function, by the termination proof of \<open>bfs\<close>), and no name occurs twice as
  \<open>via\<close> in the transitive list.
\<close>

theorem transitive_no_duplicates:
  assumes "definitions graph name = Some d"
  shows "\<exists>r. analyzeAtomImpact graph name coverageOptions = Some r \<and>
     distinct (map via (transitive r))"
proof -
  from assms obtain r where r: "analyzeAtomImpact graph name coverageOptions = Some r"
    using analyzeAtomImpact_Some by blast
  have "distinct (map via (bfs graph (map (\<lambda>s. (s, 1)) (dependents_of graph name)) {} []))"
    by (rule bfs_via_distinct) simp_all
  then show ?thesis
    using r analyzeAtomImpact_transitive [OF r] by simp
qed

theorem transitive_no_duplicates_witness:
  "\<exists>r. analyzeAtomImpact diamondCycle ''base'' None = Some r \<and>
     distinct (map via (transitive r))"
proof -
  have "definitions diamondCycle ''base'' = Some (exampleDefinition ''base'' atom ''/test/atoms.ts'')"
    by (simp add: diamondCycle_def)
  then show ?thesis
    by (rule transitive_no_duplicates)
qed

text \<open>
  Claim C2.  No transitive entry has a depth greater than 5; and when the dependents
  relation is a linear chain \<open>n0 \<leftarrow> n1 \<leftarrow> \<dots> \<leftarrow> n7\<close> of distinct names rooted at the
  target \<open>n0\<close>, the transitive list is exactly \<open>n1, \<dots>, n5\<close> at depths 1 to 5, so that
  the nodes at depth 6 and 7 are left out.
\<close>

theorem chain_depth_bound:
  assumes "analyzeAtomImpact graph n0 coverageOptions = Some r"
  shows "(\<forall>t\<in>set (transitive r). depth t \<le> 5) \<and>
     (distinct [n0, n1, n2, n3, n4, n5, n6, n7] \<and>
      dependentSelectors graph n0 = Some [n1] \<and> dependentSelectors graph n1 = Some [n2] \<and>
      dependentSelectors graph n2 = Some [n3] \<and> dependentSelectors graph n3 = Some [n4] \<and>
      dependentSelectors graph n4 = Some [n5] \<and> dependentSelectors graph n5 = Some [n6] \<and>
      dependentSelectors graph n6 = Some [n7] \<and> dependentSelectors graph n7 = None
      \<longrightarrow> map (\<lambda>t. (via t, depth t)) (transitive r) =
            [(n1, 1), (n2, 2), (n3, 3), (n4, 4), (n5, 5)])"
proof
  have "\<forall>t\<in>set (bfs graph (map (\<lambda>s. (s, 1)) (dependents_of graph n0)) {} []). depth t \<le> maxDepth"
    by (rule bfs_depth_bound) simp
  then show "\<forall>t\<in>set (transitive r). depth t \<le> 5"
    using analyzeAtomImpact_transitive [OF assms] by (simp add: maxDepth_def)
next
  show "distinct [n0, n1, n2, n3, n4, n5, n6, n7] \<and>
      dependentSelectors graph n0 = Some [n1] \<and> dependentSelectors graph n1 = Some [n2] \<and>
      dependentSelectors graph n2 = Some [n3] \<and> dependentSelectors graph n3 = Some [n4] \<and>
      dependentSelectors graph n4 = Some [n5] \<and> dependentSelectors graph n5 = Some [n6] \<and>
      dependentSelectors graph n6 = Some [n7] \<and> dependentSelectors graph n7 = None
      \<longrightarrow> map (\<lambda>t. (via t, depth t)) (transitive r) =
            [(n1, 1), (n2, 2), (n3, 3), (n4, 4), (n5, 5)]"
  proof
    assume h: "distinct [n0, n1, n2, n3, n4, n5, n6, n7] \<and>
      dependentSelectors graph n0 = Some [n1] \<and> dependentSelectors graph n1 = Some [n2] \<and>
      dependentSelectors graph n2 = Some [n3] \<and> dependentSelectors graph n3 = Some [n4] \<and>
      dependentSelectors graph n4 = Some [n5] \<and> dependentSelectors graph n5 = Some [n6] \<and>
      dependentSelectors graph n6 = Some [n7] \<and> dependentSelectors graph n7 = None"
    have "transitive r = bfs graph [(n1, 1)] {} []"
      using analyzeAtomImpact_transitive [OF assms] h by (simp add: dependents_of_def)
    also have "\<dots> = bfs graph [(n2, 2)] {n1} [transitiveEntry graph n1 1]"
      using h bfs_chain_step [of 1 n1 "{}" graph n2 "[]"]
        by (auto simp add: maxDepth_def eval_nat_numeral simp del: bfs.simps)
    also have "\<dots> = bfs graph [(n3, 3)] {n2, n1}
        [transitiveEntry graph n1 1, transitiveEntry graph n2 2]"
      using h bfs_chain_step [of 2 n2 "{n1}" graph n3]
        by (auto simp add: maxDepth_def eval_nat_numeral simp del: bfs.simps)
    also have "\<dots> = bfs graph [(n4, 4)] {n3, n2, n1}
        [transitiveEntry graph n1 1, transitiveEntry graph n2 2, transitiveEntry graph n3 3]"
      using h bfs_chain_step [of 3 n3 "{n2, n1}" graph n4]
        by (auto simp add: maxDepth_def eval_nat_numeral simp del: bfs.simps)
    also have "\<dots> = bfs graph [(n5, 5)] {n4, n3, n2, n1}
        [transitiveEntry graph n1 1, transitiveEntry graph n2 2, transitiveEntry graph n3 3,
         transitiveEntry graph n4 4]"
      using h bfs_chain_step [of 4 n4 "{n3, n2, n1}" graph n5]
        by (auto simp add: maxDepth_def eval_nat_numeral simp del: bfs.simps)
    also have "\<dots> = bfs graph [(n6, 6)] {n5, n4, n3, n2, n1}
        [transitiveEntry graph n1 1, transitiveEntry graph n2 2, transitiveEntry graph n3 3,
         transitiveEntry graph n4 4, transitiveEntry graph n5 5]"
      using h bfs_chain_step [of 5 n5 "{n4, n3, n2, n1}" graph n6]
        by (auto simp add: maxDepth_def eval_nat_numeral simp del: bfs.simps)
    also have "\<dots> = [transitiveEntry graph n1 1, transitiveEntry graph n2 2,
        transitiveEntry graph n3 3, transitiveEntry graph n4 4, transitiveEntry graph n5 5]"
      by (simp add: maxDepth_def)
    finally show "map (\<lambda>t. (via t, depth t)) (transitive r) =
            [(n1, 1), (n2, 2), (n3, 3), (n4, 4), (n5, 5)]"
      by (simp add: transitiveEntry_def Let_def)
  qed
qed

theorem chain_depth_bound_witness:
  "\<exists>r. analyzeAtomImpact chain7 ''base'' None = Some r \<and>
     (\<forall>t\<in>set (transitive r). depth t \<le> 5) \<and>
     map (\<lambda>t. (via t, depth t)) (transitive r) =
       [(''s1'', 1), (''s2'', 2), (''s3'', 3), (''s4'', 4), (''s5'', 5)]"
proof -
  have "definitions chain7 ''base'' = Some (exampleDefinition ''base'' atom ''/test/atoms.ts'')"
    by (simp add: chain7_def)
  then obtain r where r: "analyzeAtomImpact chain7 ''base'' None = Some r"
    using analyzeAtomImpact_Some by blast
  show ?thesis
    using r chain_depth_bound [OF r, of "''s1''" "''s2''" "''s3''" "''s4''" "''s5''" "''s6''" "''s7''"]
    by (simp add: chain7_def)
qed

subsection \<open>File impact\<close>

text \<open>
  Claim C10.  When the graph is built from the same extraction result, the impact of a
  file holds exactly one result per definition of the extraction whose file is the
  resolved path, in order: the lookup of a definition's name never misses, because every
  definition is indexed by name, so no result is dropped.
\<close>

theorem file_impact_one_result_per_definition:
  "map Some (analyzeFileImpact resolve (buildDependencyGraph extraction resolvedUsages)
               filePath extraction coverageOptions) =
     map (\<lambda>d. analyzeAtomImpact (buildDependencyGraph extraction resolvedUsages) (def_name d)
                 coverageOptions)
       (filter (\<lambda>d. def_file d = resolve filePath) (recoilDefinitions extraction)) \<and>
   length (analyzeFileImpact resolve (buildDependencyGraph extraction resolvedUsages)
             filePath extraction coverageOptions) =
     length (filter (\<lambda>d. def_file d = resolve filePath) (recoilDefinitions extraction))"
proof -
  let ?g = "buildDependencyGraph extraction resolvedUsages"
  let ?defs = "filter (\<lambda>d. def_file d = resolve filePath) (recoilDefinitions extraction)"
  have "\<forall>d\<in>set ?defs. analyzeAtomImpact ?g (def_name d) coverageOptions \<noteq> None"
  proof
    fix d assume "d \<in> set ?defs"
    then have "definitions ?g (def_name d) \<noteq> None"
      using buildDependencyGraph_definitions by simp
    then show "analyzeAtomImpact ?g (def_name d) coverageOptions \<noteq> None"
      using analyzeAtomImpact_Some by fastforce
  qed
  then have m: "map Some (analyzeFileImpact resolve ?g filePath extraction coverageOptions) =
      map (\<lambda>d. analyzeAtomImpact ?g (def_name d) coverageOptions) ?defs"
    using fold_push_result [of ?defs "\<lambda>d. analyzeAtomImpact ?g (def_name d) coverageOptions" "[]"]
    by (simp add: analyzeFileImpact_def Let_def)
  have "length (analyzeFileImpact resolve ?g filePath extraction coverageOptions) =
      length (map Some (analyzeFileImpact resolve ?g filePath extraction coverageOptions))"
    by simp
  also have "\<dots> = length (map (\<lambda>d. analyzeAtomImpact ?g (def_name d) coverageOptions) ?defs)"
    by (simp only: m)
  finally have "length (analyzeFileImpact resolve ?g filePath extraction coverageOptions) = length ?defs"
    by simp
  with m show ?thesis by blast
qed

section \<open>Properties of the identifier resolver\<close>

lemma find_SomeD: "find P xs = Some x \<Longrightarrow> x \<in> set xs \<and> P x"
  by (induction xs) (auto split: if_splits)

lemma chain_closed_unresolved:
  shows "chain_closed graph definitionLookup S \<Longrightarrow> (f, name) \<in> S \<Longrightarrow>
           fst (resolveExportedName f name graph definitionLookup d visited) = None"
    and "chain_closed graph definitionLookup S \<Longrightarrow>
         (\<forall>r\<in>set rs. case r of Named l e s \<Rightarrow> True | Star s \<Rightarrow> (s, name) \<in> S) \<Longrightarrow>
           fst (resolveStarReExports rs name graph definitionLookup d visited) = None"
proof (induction f name graph definitionLookup d visited and rs name graph definitionLookup d visited
       rule: resolveExportedName_resolveStarReExports.induct)
  case (1 f name graph definitionLookup d visited)
  show ?case
  proof (cases "d > maxChainDepth \<or> f @ '':'' @ name \<in> visited")
    case True
    then show ?thesis by (subst resolveExportedName.simps) auto
  next
    case False
    have nodef: "fileDefs_get definitionLookup f name = None"
      using "1.prems" by (auto simp: chain_closed_def)
    show ?thesis
    proof (cases "graph f")
      case None
      with False nodef show ?thesis by (subst resolveExportedName.simps) (simp add: Let_def)
    next
      case (Some fileInfo)
      have stays: "step_stays graph S f name"
        using "1.prems" by (auto simp: chain_closed_def)
      let ?v1 = "insert (f @ '':'' @ name) visited"
      show ?thesis
      proof (cases "\<exists>l e s. find (is_named_for name) (reExports fileInfo) = Some (Named l e s)")
        case True
        then obtain l e s where fn: "find (is_named_for name) (reExports fileInfo) = Some (Named l e s)"
          by blast
        then have "(s, e) \<in> S"
          using stays Some by (simp add: step_stays_def)
        then have "fst (resolveExportedName s e graph definitionLookup (d + 1) ?v1) = None"
          using "1.IH" False nodef Some fn "1.prems"(1) by simp
        then show ?thesis
          using False nodef Some fn by (subst resolveExportedName.simps) (simp add: Let_def)
      next
        case notnamed: False
        have st: "\<forall>r\<in>set (reExports fileInfo). case r of Named l e s \<Rightarrow> True | Star s \<Rightarrow> (s, name) \<in> S"
          and im: "\<And>i. find (\<lambda>i. imp_localName i = name) (importRecords fileInfo) = Some i \<Longrightarrow>
                   (imp_sourceFile i, imp_exportedName i) \<in> S"
          using stays Some notnamed
          by (auto simp: step_stays_def split: option.splits ReExportRecord.splits)
        have stars: "fst (resolveStarReExports (reExports fileInfo) name graph definitionLookup d ?v1) = None"
        proof (cases "find (is_named_for name) (reExports fileInfo)")
          case None
          then show ?thesis using "1.IH" False nodef Some st "1.prems"(1) by simp
        next
          case (Some r)
          with notnamed obtain s where "r = Star s" by (cases r) auto
          with Some show ?thesis using "1.IH" False nodef \<open>graph f = Some fileInfo\<close> st "1.prems"(1) by simp
        qed
        then obtain v2 where v2:
          "resolveStarReExports (reExports fileInfo) name graph definitionLookup d ?v1 = (None, v2)"
          by (cases "resolveStarReExports (reExports fileInfo) name graph definitionLookup d ?v1") auto
        have viaImport: "\<And>i. find (\<lambda>i. imp_localName i = name) (importRecords fileInfo) = Some i \<Longrightarrow>
           fst (resolveExportedName (imp_sourceFile i) (imp_exportedName i) graph definitionLookup
                  (d + 1) v2) = None"
        proof -
          fix i assume fi: "find (\<lambda>i. imp_localName i = name) (importRecords fileInfo) = Some i"
          then have inS: "(imp_sourceFile i, imp_exportedName i) \<in> S"
            using im by blast
          show "fst (resolveExportedName (imp_sourceFile i) (imp_exportedName i) graph definitionLookup
                  (d + 1) v2) = None"
          proof (cases "find (is_named_for name) (reExports fileInfo)")
            case None
            then show ?thesis
              using "1.IH" False nodef \<open>graph f = Some fileInfo\<close> v2 fi inS "1.prems"(1) by simp
          next
            case (Some r)
            with notnamed obtain s where "r = Star s" by (cases r) auto
            with Some show ?thesis
              using "1.IH" False nodef \<open>graph f = Some fileInfo\<close> v2 fi inS "1.prems"(1) by simp
          qed
        qed
        show ?thesis
        proof (cases "find (is_named_for name) (reExports fileInfo)")
          case None
          then show ?thesis
            using False nodef \<open>graph f = Some fileInfo\<close> v2 viaImport
            by (subst resolveExportedName.simps) (simp add: Let_def split: option.splits)
        next
          case (Some r)
          with notnamed obtain s where "r = Star s" by (cases r) auto
          with Some show ?thesis
            using False nodef \<open>graph f = Some fileInfo\<close> v2 viaImport
            by (subst resolveExportedName.simps) (simp add: Let_def split: option.splits)
        qed
      qed
    qed
  qed
next
  case (2 name graph definitionLookup d visited)
  then show ?case by simp
next
  case (3 l e s rest name graph definitionLookup d visited)
  then show ?case by simp
next
  case (4 s rest name graph definitionLookup d visited)
  have "fst (resolveExportedName s name graph definitionLookup (d + 1) visited) = None"
    using 4 by simp
  then obtain v where v: "resolveExportedName s name graph definitionLookup (d + 1) visited = (None, v)"
    by (cases "resolveExportedName s name graph definitionLookup (d + 1) visited") auto
  then show ?case
    using 4 by simp
qed

lemma fileDefs_get_lookup_add:
  "fileDefs_get (lookup_add d lookup) f n =
     (if def_file d = f \<and> def_name d = n then Some n else fileDefs_get lookup f n)"
  by (auto simp: fileDefs_get_def lookup_add_def Let_def split: option.splits)

lemma fileDefs_get_fold:
  "fileDefs_get (fold lookup_add defs lookup) f n = Some m \<Longrightarrow>
   (\<exists>d\<in>set defs. def_file d = f \<and> def_name d = n) \<or> fileDefs_get lookup f n = Some m"
proof (induction defs arbitrary: lookup)
  case Nil
  then show ?case by simp
next
  case (Cons d defs)
  from Cons.IH [of "lookup_add d lookup"] Cons.prems
  show ?case
    by (auto simp: fileDefs_get_lookup_add split: if_splits)
qed

lemma buildDefinitionLookup_none:
  "\<forall>d\<in>set (recoilDefinitions extraction). \<not> (def_file d = f \<and> def_name d = n) \<Longrightarrow>
   fileDefs_get (buildDefinitionLookup extraction) f n = None"
proof (rule ccontr)
  assume nd: "\<forall>d\<in>set (recoilDefinitions extraction). \<not> (def_file d = f \<and> def_name d = n)"
    and "fileDefs_get (buildDefinitionLookup extraction) f n \<noteq> None"
  then obtain m where "fileDefs_get (fold lookup_add (recoilDefinitions extraction) Map.empty) f n = Some m"
    by (auto simp: buildDefinitionLookup_def)
  from fileDefs_get_fold [OF this] nd show False
    by (auto simp: fileDefs_get_def)
qed

lemma fold_resolve_append:
  "fold (\<lambda>usage resolved. case g usage of Some r \<Rightarrow> resolved @ [r] | None \<Rightarrow> resolved) us acc =
   acc @ List.map_filter g us"
  by (induction us arbitrary: acc) (auto simp: List.map_filter_simps split: option.splits)

lemma resolveUsages_map_filter:
  "resolveUsages graph extraction usages =
   List.map_filter (resolveUsage graph (buildDefinitionLookup extraction)) usages"
  by (simp add: resolveUsages_def Let_def fold_resolve_append)

lemma mutual_named_cycle_closed:
  assumes "graph a = Some fa" and "graph b = Some fb"
    and "find (is_named_for x) (reExports fa) = Some (Named x y b)"
    and "find (is_named_for y) (reExports fb) = Some (Named y x a)"
    and "fileDefs_get definitionLookup a x = None" and "fileDefs_get definitionLookup b y = None"
  shows "chain_closed graph definitionLookup {(a, x), (b, y)}"
  using assms by (auto simp: chain_closed_def step_stays_def)

text \<open>
  Claim C7.  The cycle is a set \<open>S\<close> of (file, name) pairs: none of them is a definition,
  and what resolution follows from a pair of \<open>S\<close> is again a pair of \<open>S\<close> (for two files
  \<open>a\<close> and \<open>b\<close> that re-export \<open>x\<close> from each other, \<open>S = {(a, x), (b, x)}\<close>, whatever else
  the two files hold).  Then the resolution of any pair of \<open>S\<close>, from any depth and any
  visited set, returns unresolved (it returns at all: \<open>resolveExportedName\<close> is total, by
  its termination proof on the depth cap), and a usage whose name is not defined in its
  own file and whose import leads to a pair of \<open>S\<close> contributes nothing to the output of
  \<open>resolveUsages\<close>.
\<close>

theorem mutual_reexport_cycle_dropped:
  assumes closed: "chain_closed graph (buildDefinitionLookup extraction) S"
    and nl: "\<forall>d\<in>set (recoilDefinitions extraction).
               \<not> (def_file d = usage_file u \<and> def_name d = localName u)"
    and gu: "graph (usage_file u) = Some fu"
    and fi: "find (\<lambda>i. imp_localName i = localName u) (importRecords fu) = Some i"
    and enters: "(imp_sourceFile i, imp_exportedName i) \<in> S"
  shows "(\<forall>(f, n)\<in>S. \<forall>d visited.
            fst (resolveExportedName f n graph (buildDefinitionLookup extraction) d visited) = None) \<and>
         resolveUsages graph extraction (before @ u # after) =
           resolveUsages graph extraction (before @ after)"
proof -
  let ?dl = "buildDefinitionLookup extraction"
  have unresolved: "fst (resolveExportedName f n graph ?dl d visited) = None"
    if "(f, n) \<in> S" for f n d visited
    using that by (rule chain_closed_unresolved(1) [OF closed])
  have r1: "fst (resolveExportedName (imp_sourceFile i) (imp_exportedName i) graph ?dl 1 {}) = None"
    using enters by (rule unresolved)
  have r2: "fileDefs_get ?dl (usage_file u) (localName u) = None"
    using nl by (rule buildDefinitionLookup_none)
  have r3: "resolveUsage graph ?dl u = None"
    unfolding resolveUsage_def by (simp only: r1 r2 gu fi option.case)
  have r4: "resolveUsages graph extraction (before @ u # after) =
           resolveUsages graph extraction (before @ after)"
    unfolding resolveUsages_map_filter List.map_filter_def by (simp add: r3)
  have r5: "\<forall>(f, n)\<in>S. \<forall>d visited.
            fst (resolveExportedName f n graph ?dl d visited) = None"
    using unresolved by blast
  from r5 r4 show ?thesis by (rule conjI)
qed

lemma cycleLookup:
  "fileDefs_get (buildDefinitionLookup cycleExtraction) f n =
     (if f = ''/t/a.ts'' \<and> n = ''y'' then Some ''y'' else None)"
proof -
  have e: "fileDefs_get Map.empty f n = None"
    by (simp add: fileDefs_get_def)
  show ?thesis
    by (simp add: cycleExtraction_def buildDefinitionLookup_def fileDefs_get_lookup_add
          exampleDefinition_def e)
qed

theorem mutual_reexport_cycle_dropped_witness:
  "resolveUsages cycleGraph cycleExtraction [cycleUsage] = [] \<and>
   fst (resolveExportedName ''/t/a.ts'' ''x'' cycleGraph (buildDefinitionLookup cycleExtraction) 1 {}) = None \<and>
   resolveUsages starCycleGraph cycleExtraction [cycleUsage] = [] \<and>
   fst (resolveExportedName ''/t/b.ts'' ''x'' starCycleGraph (buildDefinitionLookup cycleExtraction) 3 {}) = None"
proof -
  let ?S = "{(''/t/a.ts'', ''x''), (''/t/b.ts'', ''x'')}"
  let ?fu = "\<lparr>importRecords = [\<lparr>imp_localName = ''x'', imp_exportedName = ''x'', imp_sourceFile = ''/t/a.ts''\<rparr>],
              reExports = [], localExports = {}\<rparr>"
  let ?i = "\<lparr>imp_localName = ''x'', imp_exportedName = ''x'', imp_sourceFile = ''/t/a.ts''\<rparr>"
  have c1: "chain_closed cycleGraph (buildDefinitionLookup cycleExtraction) ?S"
    by (simp add: chain_closed_def step_stays_def cycleLookup cycleGraph_def is_named_for_def)
  have c2: "chain_closed starCycleGraph (buildDefinitionLookup cycleExtraction) ?S"
    by (simp add: chain_closed_def step_stays_def cycleLookup starCycleGraph_def is_named_for_def)
  have nl: "\<forall>d\<in>set (recoilDefinitions cycleExtraction).
               \<not> (def_file d = usage_file cycleUsage \<and> def_name d = localName cycleUsage)"
    by (simp add: cycleExtraction_def cycleUsage_def exampleDefinition_def)
  have g1: "cycleGraph (usage_file cycleUsage) = Some ?fu"
    by (simp add: cycleGraph_def cycleUsage_def)
  have g2: "starCycleGraph (usage_file cycleUsage) = Some ?fu"
    by (simp add: starCycleGraph_def cycleUsage_def)
  have fi: "find (\<lambda>i. imp_localName i = localName cycleUsage) (importRecords ?fu) = Some ?i"
    by (simp add: cycleUsage_def)
  have en: "(imp_sourceFile ?i, imp_exportedName ?i) \<in> ?S"
    by simp
  from mutual_reexport_cycle_dropped [OF c1 nl g1 fi en, of "[]" "[]"]
  have n: "resolveUsages cycleGraph cycleExtraction [cycleUsage] = [] \<and>
     fst (resolveExportedName ''/t/a.ts'' ''x'' cycleGraph (buildDefinitionLookup cycleExtraction) 1 {}) = None"
    by (simp add: resolveUsages_def)
  from mutual_reexport_cycle_dropped [OF c2 nl g2 fi en, of "[]" "[]"]
  have s: "resolveUsages starCycleGraph cycleExtraction [cycleUsage] = [] \<and>
     fst (resolveExportedName ''/t/b.ts'' ''x'' starCycleGraph (buildDefinitionLookup cycleExtraction) 3 {}) = None"
    by (simp add: resolveUsages_def)
  from n s show ?thesis by simp
qed

lemma cycle_eval:
  "resolveExportedName ''/t/a.ts'' ''x'' cycleGraph (buildDefinitionLookup cycleExtraction) 1 {} =
     (None, {''/t/b.ts:x'', ''/t/a.ts:x''})"
  by (simp add: resolveExportedName.simps cycleLookup cycleGraph_def is_named_for_def
        maxChainDepth_def Let_def)

section \<open>Properties of the usage collector\<close>

subsection \<open>Evaluation on concrete trees\<close>

lemmas walk_eval = walk.simps no_leave_def child_def childList_def attr_def typeIs_def nameOf_def
  firstArgument_def Let_def

subsection \<open>Enclosing definitions\<close>

lemma countLines_newlines:
  "index \<le> offset \<Longrightarrow> offset \<le> length source \<Longrightarrow>
   countLines source offset index line =
     line + length (filter (\<lambda>c. c = CHR 0x0A) (take (offset - index) (drop index source)))"
proof (induction source offset index line rule: countLines.induct)
  case (1 source offset index line)
  show ?case
  proof (cases "index < offset")
    case True
    then have i: "index < length source" using "1.prems" by simp
    have d: "take (offset - index) (drop index source) =
               source ! index # take (offset - (index + 1)) (drop (index + 1) source)"
    proof -
      have "offset - index = Suc (offset - (index + 1))" using True by simp
      moreover have "drop index source = source ! index # drop (index + 1) source"
        using i by (simp add: Cons_nth_drop_Suc)
      ultimately show ?thesis by simp
    qed
    have "countLines source offset index line =
            countLines source offset (index + 1) (if source ! index = CHR 0x0A then line + 1 else line)"
      using True i by (subst countLines.simps) simp
    also have "\<dots> = (if source ! index = CHR 0x0A then line + 1 else line) +
        length (filter (\<lambda>c. c = CHR 0x0A) (take (offset - (index + 1)) (drop (index + 1) source)))"
      using True i "1.prems" by (intro "1.IH") simp_all
    finally show ?thesis
      unfolding d by simp
  next
    case False
    then have "index = offset" using "1.prems" by simp
    then show ?thesis by (subst countLines.simps) simp
  qed
qed

lemma offsetToLine_newlines:
  "offset \<le> length source \<Longrightarrow>
   offsetToLine source offset = 1 + length (filter (\<lambda>c. c = CHR 0x0A) (take offset source))"
  by (simp add: offsetToLine_def countLines_newlines)

lemma fold_preserves:
  assumes "\<And>item acc. item \<in> set items \<Longrightarrow> Inv acc \<Longrightarrow> Inv (step item acc)"
    and "Inv init"
  shows "Inv (fold step items init)"
  using assms by (induction items arbitrary: init) auto

lemma walk_invariant_aux:
  "(\<forall>n s. P s \<longrightarrow> P (enter n s)) \<Longrightarrow> (\<forall>n s. P s \<longrightarrow> P (leave n s)) \<Longrightarrow> P s \<Longrightarrow>
   P (walk enter leave n s)"
proof (induction enter leave n s rule: walk.induct)
  case (1 enter leave n s)
  have "P (fold (walk enter leave) (kids n) (enter n s))"
  proof (rule fold_preserves)
    show "P (enter n s)" using 1 by simp
  next
    fix x s' assume "x \<in> set (kids n)" "P s'"
    then show "P (walk enter leave x s')" using 1 by simp
  qed
  then show ?case
    using 1 by (subst walk.simps) simp
qed

lemma walk_invariant:
  assumes "\<And>n s. P s \<Longrightarrow> P (enter n s)" and "\<And>n s. P s \<Longrightarrow> P (leave n s)" and "P s"
  shows "P (walk enter leave n s)"
proof -
  have "\<forall>n s. P s \<longrightarrow> P (enter n s)" using assms(1) by blast
  moreover have "\<forall>n s. P s \<longrightarrow> P (leave n s)" using assms(2) by blast
  ultimately show ?thesis using assms(3) by (rule walk_invariant_aux)
qed

lemma in_pushFor:
  "u \<in> set (pushFor a t h f l e us) \<Longrightarrow>
   u \<in> set us \<or> (hook u = h \<and> enclosingDefinition u = e \<and> usageType u = t)"
  by (auto simp: pushFor_def mkUsage_def split: if_splits)

lemma pushFor_hookUsage:
  assumes "h \<noteq> ''get(selector)''" and "\<forall>u\<in>set us. hookUsage u"
  shows "\<forall>u\<in>set (pushFor a t h f l None us). hookUsage u"
proof
  fix u assume "u \<in> set (pushFor a t h f l None us)"
  from in_pushFor [OF this] assms show "hookUsage u"
    by (auto simp: hookUsage_def)
qed

lemma pushFor_step:
  assumes "h \<noteq> ''get(selector)''" and "\<forall>u\<in>set us. hookUsage u"
  shows "\<forall>u\<in>set (if c then pushFor a t h f l None us else us). hookUsage u"
  using pushFor_hookUsage [OF assms] assms(2) by (cases c) simp_all

lemma callbackEnter_hookUsage:
  assumes "\<forall>u\<in>set us. hookUsage u"
  shows "\<forall>u\<in>set (callbackEnter context filePath source anc n us). hookUsage u"
proof -
  let ?line = "offsetToLine source (start n)"
  let ?u1 = "(if calleeIs n (setAlias context)
                   then pushFor (firstArgument n)
                          (if isInsideInitializer anc then initializer else setter)
                          ''set(callback)'' filePath ?line None us
                   else us)"
  let ?u2 = "(if calleeIs n (resetAlias context)
                   then pushFor (firstArgument n) setter ''reset(callback)'' filePath ?line None ?u1
                   else ?u1)"
  let ?u3 = "(if calleeIs n (getPromiseAlias context)
                   then pushFor (firstArgument n) reader ''getPromise(callback)'' filePath ?line None ?u2
                   else ?u2)"
  let ?u4 = "(if calleeIsSnapshotGetPromise n (snapshotAlias context)
            then pushFor (firstArgument n) reader ''getPromise(callback)'' filePath ?line None ?u3
            else ?u3)"
  have t1: "''set(callback)'' \<noteq> ''get(selector)''" by simp
  have t2: "''reset(callback)'' \<noteq> ''get(selector)''" by simp
  have t3: "''getPromise(callback)'' \<noteq> ''get(selector)''" by simp
  have 1: "\<forall>u\<in>set ?u1. hookUsage u"
    by (rule pushFor_step [OF t1 assms])
  have 2: "\<forall>u\<in>set ?u2. hookUsage u"
    by (rule pushFor_step [OF t2 1])
  have 3: "\<forall>u\<in>set ?u3. hookUsage u"
    by (rule pushFor_step [OF t3 2])
  have 4: "\<forall>u\<in>set ?u4. hookUsage u"
    by (rule pushFor_step [OF t3 3])
  show ?thesis
  proof (cases "ntype n = ''CallExpression''")
    case True
    have "callbackEnter context filePath source anc n us = ?u4"
      using True by (simp add: callbackEnter_def Let_def)
    with 4 show ?thesis by (simp only:)
  next
    case False
    then show ?thesis using assms by (simp add: callbackEnter_def)
  qed
qed

lemma walkCallbackBody_hookUsage:
  "\<forall>u\<in>set us. hookUsage u \<Longrightarrow>
   \<forall>u\<in>set (walkCallbackBody body context filePath source us anc). hookUsage u"
  unfolding walkCallbackBody_def
  by (rule walk_invariant [where P = "\<lambda>us. \<forall>u\<in>set us. hookUsage u"])
     (simp_all add: callbackEnter_hookUsage no_leave_def)

lemma hookState_push:
  "h \<noteq> ''get(selector)'' \<Longrightarrow> hookState st \<Longrightarrow>
   hookState (st\<lparr>st_usages := pushFor a t h f l None (st_usages st)\<rparr>)"
  using pushFor_hookUsage [of h "st_usages st" a t f l] by (simp add: hookState_def)

lemma enterRecoilCallback_hookState:
  "hookState st \<Longrightarrow> hookState (enterRecoilCallback filePath source callNode st)"
  by (auto simp: enterRecoilCallback_def hookState_def walkCallbackBody_hookUsage
      split: option.splits list.splits)

lemma enterHookCall_hookState:
  assumes "hookState st"
  shows "hookState (enterHookCall hookName filePath source callNode st)"
proof -
  have r: "hookState (st\<lparr>st_usages :=
                   pushFor a2 setter ''useRecoilState'' f l None
                     (pushFor a1 reader ''useRecoilState'' f l None (st_usages st))\<rparr>)" for a1 a2 f l
  proof -
    have t: "''useRecoilState'' \<noteq> ''get(selector)''" by simp
    have u: "\<forall>u\<in>set (st_usages st). hookUsage u"
      using assms by (simp add: hookState_def)
    have "\<forall>u\<in>set (pushFor a2 setter ''useRecoilState'' f l None
                     (pushFor a1 reader ''useRecoilState'' f l None (st_usages st))). hookUsage u"
      by (rule pushFor_hookUsage [OF t pushFor_hookUsage [OF t u]])
    then show ?thesis by (simp add: hookState_def)
  qed
  show ?thesis
    unfolding enterHookCall_def Let_def
    using assms r by (simp add: hookState_push enterRecoilCallback_hookState)
qed

lemma enterCall_hookState:
  "hookState st \<Longrightarrow> hookState (enterCall filePath source callNode st)"
  by (simp add: enterCall_def Let_def hookState_push enterHookCall_hookState split: option.splits)

lemma collectEnter_hookState:
  "hookState st \<Longrightarrow> hookState (collectEnter filePath source n st)"
proof -
  assume a: "hookState st"
  have 1: "hookState (st\<lparr>st_ancestors := st_ancestors st @ [n]\<rparr>)"
    using a by (simp add: hookState_def)
  have 2: "hookState (st\<lparr>st_ancestors := st_ancestors st @ [n],
                         st_functionNameStack := st_functionNameStack st @ [x]\<rparr>)" for x
    using a by (simp add: hookState_def)
  have 3: "hookState s \<Longrightarrow> hookState (enterImport n s)" for s
    by (simp add: enterImport_def hookState_def)
  show ?thesis
    unfolding collectEnter_def Let_def
    using 1 2 3 by (simp add: enterCall_hookState)
qed

lemma collectLeave_hookState:
  "hookState st \<Longrightarrow> hookState (collectLeave n st)"
  by (simp add: collectLeave_def hookState_def Let_def)

lemma collectFromFile_hookUsage:
  assumes "\<forall>u\<in>set us. hookUsage u"
  shows "\<forall>u\<in>set (collectFromFile parse filePath source us). hookUsage u"
proof (cases "parse filePath source")
  case None
  then show ?thesis using assms by (simp add: collectFromFile_def)
next
  case (Some program)
  have "hookState (walk (collectEnter filePath source) collectLeave program
               \<lparr>st_hookAliases = Map.empty, st_ancestors = [], st_functionNameStack = [], st_usages = us\<rparr>)"
  proof (rule walk_invariant [where P = hookState])
    show "hookState \<lparr>st_hookAliases = Map.empty, st_ancestors = [], st_functionNameStack = [], st_usages = us\<rparr>"
      using assms by (simp add: hookState_def)
  qed (simp_all add: collectEnter_hookState collectLeave_hookState)
  then show ?thesis using Some by (simp add: collectFromFile_def hookState_def)
qed

lemma pushFor_appends:
  "pushFor a t h f l e us = us @ pushFor a t h f l e []"
  by (simp add: pushFor_def)

lemma fold_appends:
  assumes "\<And>item acc. item \<in> set items \<Longrightarrow> step item acc = acc @ step item []"
  shows "fold step items init = init @ concat (map (\<lambda>item. step item []) items)"
  using assms
proof (induction items arbitrary: init)
  case Nil
  show ?case by simp
next
  case (Cons item items)
  have tail: "fold step items acc = acc @ concat (map (\<lambda>item. step item []) items)" for acc
  proof (rule Cons.IH)
    fix x acc' assume "x \<in> set items"
    then have "x \<in> set (item # items)" by simp
    then show "step x acc' = acc' @ step x []" by (rule Cons.prems)
  qed
  have first: "step item init = init @ step item []"
    by (rule Cons.prems) simp
  have "fold step (item # items) init = fold step items (step item init)"
    by simp
  also have "\<dots> = step item init @ concat (map (\<lambda>item. step item []) items)"
    by (rule tail)
  also have "\<dots> = (init @ step item []) @ concat (map (\<lambda>item. step item []) items)"
    by (subst first) (rule refl)
  finally show ?case by simp
qed

lemma walk_appends_aux:
  "(\<forall>n s. enter n s = s @ enter n []) \<Longrightarrow> (\<forall>n s. leave n s = s @ leave n []) \<Longrightarrow>
   walk enter leave n s = s @ walk enter leave n []"
proof (induction enter leave n s rule: walk.induct)
  case (1 enter leave n s)
  have k: "walk enter leave x acc = acc @ walk enter leave x []" if "x \<in> set (kids n)" for x acc
    by (rule "1.IH" [OF that "1.prems"])
  let ?below = "concat (map (\<lambda>x. walk enter leave x []) (kids n))"
  have f: "fold (walk enter leave) (kids n) acc = acc @ ?below" for acc
    by (rule fold_appends) (rule k)
  have e: "enter n s = s @ enter n []"
    by (rule "1.prems"(1) [rule_format])
  have l: "leave n acc = acc @ leave n []" for acc
    by (rule "1.prems"(2) [rule_format])
  have "walk enter leave n s = leave n (fold (walk enter leave) (kids n) (enter n s))"
    by (subst walk.simps) (rule refl)
  also have "\<dots> = leave n (fold (walk enter leave) (kids n) (s @ enter n []))"
    by (subst e) (rule refl)
  also have "\<dots> = leave n (s @ enter n [] @ ?below)"
    by (simp add: f)
  also have "\<dots> = (s @ enter n [] @ ?below) @ leave n []"
    by (rule l)
  finally have whole: "walk enter leave n s = s @ enter n [] @ ?below @ leave n []"
    by simp
  have "walk enter leave n [] = leave n (fold (walk enter leave) (kids n) (enter n []))"
    by (subst walk.simps) (rule refl)
  also have "\<dots> = leave n (enter n [] @ ?below)"
    by (simp add: f)
  also have "\<dots> = (enter n [] @ ?below) @ leave n []"
    by (rule l)
  finally have fresh: "walk enter leave n [] = enter n [] @ ?below @ leave n []"
    by simp
  show ?case
    by (simp only: whole fresh)
qed

lemma selectorEnter_appends:
  "selectorEnter f source name n us = us @ selectorEnter f source name n []"
  using pushFor_appends [of _ _ _ _ _ _ us] by (simp add: selectorEnter_def)

lemma walkSelectorGetBody_appends:
  "walkSelectorGetBody body f source us name = us @ walkSelectorGetBody body f source [] name"
  unfolding walkSelectorGetBody_def
proof (rule walk_appends_aux)
  show "\<forall>n s. selectorEnter f source name n s = s @ selectorEnter f source name n []"
    using selectorEnter_appends by blast
  show "\<forall>n s. no_leave n s = s @ no_leave n []"
    by (simp add: no_leave_def)
qed

lemma walkSelectorGetBody_owner:
  assumes "\<forall>u\<in>set us. ownedBy name u"
  shows "\<forall>u\<in>set (walkSelectorGetBody body f source us name). ownedBy name u"
  unfolding walkSelectorGetBody_def
proof (rule walk_invariant [where P = "\<lambda>us. \<forall>u\<in>set us. ownedBy name u"])
  fix n s assume s: "\<forall>u\<in>set s. ownedBy name u"
  show "\<forall>u\<in>set (selectorEnter f source name n s). ownedBy name u"
  proof
    fix u assume "u \<in> set (selectorEnter f source name n s)"
    then have "u \<in> set s \<or> (hook u = ''get(selector)'' \<and> enclosingDefinition u = Some name)"
      by (auto simp: selectorEnter_def dest: in_pushFor split: if_splits)
    then show "ownedBy name u"
      using s by (auto simp: ownedBy_def)
  qed
next
  fix n s assume "\<forall>u\<in>set s. ownedBy name u"
  then show "\<forall>u\<in>set (no_leave n s). ownedBy name u" by (simp add: no_leave_def)
next
  show "\<forall>u\<in>set us. ownedBy name u" by (rule assms)
qed

lemma collectFromDefinition_appends:
  "collectFromDefinition readFile d us = us @ collectFromDefinition readFile d []"
proof -
  have w: "walkSelectorGetBody body f source (us @ more) name =
             us @ walkSelectorGetBody body f source more name" for body f source more name
    using walkSelectorGetBody_appends [of body f source "us @ more" name]
          walkSelectorGetBody_appends [of body f source more name] by simp
  have w0: "walkSelectorGetBody body f source us name =
             us @ walkSelectorGetBody body f source [] name" for body f source name
    by (rule walkSelectorGetBody_appends)
  show ?thesis
    by (simp add: collectFromDefinition_def Let_def w w0 split: option.splits)
qed

lemma collectFromDefinition_owner:
  "\<forall>u\<in>set (collectFromDefinition readFile d []). ownedBy (def_name d) u"
proof -
  let ?src = "the (readFile (def_file d))"
  let ?u1 = "(case getBodyAst d of
                     Some body \<Rightarrow>
                       if def_kind d = selector \<or> def_kind d = selectorFamily
                       then walkSelectorGetBody body (def_file d) ?src [] (def_name d)
                       else []
                   | None \<Rightarrow> [])"
  have 1: "\<forall>u\<in>set ?u1. ownedBy (def_name d) u"
    using walkSelectorGetBody_owner [of "[]" "def_name d"] by (auto split: option.splits)
  have 2: "\<forall>u\<in>set (case inlineDefaultGetBody d of
              Some body \<Rightarrow>
                if def_kind d = atom \<or> def_kind d = atomFamily
                then walkSelectorGetBody body (def_file d) ?src ?u1 (def_name d)
                else ?u1
            | None \<Rightarrow> ?u1). ownedBy (def_name d) u"
    using 1 walkSelectorGetBody_owner [OF 1] by (simp split: option.splits)
  show ?thesis
    using 2 by (simp add: collectFromDefinition_def Let_def)
qed

lemma collectUsages_hooks_only:
  "collectUsages readFile parse files \<lparr>recoilDefinitions = []\<rparr> =
     fold (\<lambda>filePath usages0.
             if \<not> truthy (readFile filePath) then usages0
             else collectFromFile parse filePath (the (readFile filePath)) usages0)
       files []"
  by (simp add: collectUsages_def collectFromSelectorBodies_def)

text \<open>
  Claim C9.  The output of \<open>collectUsages\<close> is the usages of the hook pass (what
  \<open>collectUsages\<close> returns when no definition is given) followed, definition by
  definition, by the usages emitted from walking the get body and the inline-default get
  body of that definition.  Every usage of the hook pass has no \<open>enclosingDefinition\<close> and
  a hook tag other than \<open>get(selector)\<close>; every usage emitted from the bodies of a
  definition \<open>d\<close> has the hook tag \<open>get(selector)\<close> and carries the name of \<open>d\<close>, its owner.
  Hence every usage of the output has \<open>enclosingDefinition\<close> set if and only if its hook
  tag is \<open>get(selector)\<close>.
\<close>

theorem enclosingDefinition_iff_selector_read:
  "collectUsages readFile parse files extraction =
     collectUsages readFile parse files \<lparr>recoilDefinitions = []\<rparr> @
     concat (map (\<lambda>d. collectFromDefinition readFile d []) (recoilDefinitions extraction)) \<and>
   (\<forall>u\<in>set (collectUsages readFile parse files \<lparr>recoilDefinitions = []\<rparr>).
      enclosingDefinition u = None \<and> hook u \<noteq> ''get(selector)'') \<and>
   (\<forall>d\<in>set (recoilDefinitions extraction). \<forall>u\<in>set (collectFromDefinition readFile d []).
      enclosingDefinition u = Some (def_name d) \<and> hook u = ''get(selector)'') \<and>
   (\<forall>u\<in>set (collectUsages readFile parse files extraction).
      enclosingDefinition u \<noteq> None \<longleftrightarrow> hook u = ''get(selector)'')"
proof -
  let ?hookUsages = "collectUsages readFile parse files \<lparr>recoilDefinitions = []\<rparr>"
  let ?bodyUsages = "concat (map (\<lambda>d. collectFromDefinition readFile d []) (recoilDefinitions extraction))"
  have split: "collectUsages readFile parse files extraction = ?hookUsages @ ?bodyUsages"
  proof -
    have "collectUsages readFile parse files extraction =
            fold (collectFromDefinition readFile) (recoilDefinitions extraction) ?hookUsages"
      by (simp add: collectUsages_hooks_only) (simp add: collectUsages_def collectFromSelectorBodies_def)
    also have "\<dots> = ?hookUsages @ ?bodyUsages"
      by (rule fold_appends) (rule collectFromDefinition_appends)
    finally show ?thesis .
  qed
  have "\<forall>u\<in>set ?hookUsages. hookUsage u"
    unfolding collectUsages_hooks_only
    by (rule fold_preserves [where Inv = "\<lambda>us. \<forall>u\<in>set us. hookUsage u"])
       (simp_all add: collectFromFile_hookUsage)
  then have hooks: "\<forall>u\<in>set ?hookUsages. enclosingDefinition u = None \<and> hook u \<noteq> ''get(selector)''"
    by (simp add: hookUsage_def)
  have bodies: "\<forall>d\<in>set (recoilDefinitions extraction). \<forall>u\<in>set (collectFromDefinition readFile d []).
      enclosingDefinition u = Some (def_name d) \<and> hook u = ''get(selector)''"
    using collectFromDefinition_owner [of readFile] by (simp add: ownedBy_def)
  have iff: "\<forall>u\<in>set (collectUsages readFile parse files extraction).
      enclosingDefinition u \<noteq> None \<longleftrightarrow> hook u = ''get(selector)''"
  proof
    fix u assume "u \<in> set (collectUsages readFile parse files extraction)"
    then have "u \<in> set (?hookUsages @ ?bodyUsages)"
      by (simp only: split [symmetric])
    then consider "u \<in> set ?hookUsages"
      | d where "d \<in> set (recoilDefinitions extraction)" "u \<in> set (collectFromDefinition readFile d [])"
      by auto
    then show "enclosingDefinition u \<noteq> None \<longleftrightarrow> hook u = ''get(selector)''"
    proof cases
      case 1
      with hooks have "enclosingDefinition u = None \<and> hook u \<noteq> ''get(selector)''"
        by (rule bspec)
      then show ?thesis by simp
    next
      case 2
      with bodies have "enclosingDefinition u = Some (def_name d) \<and> hook u = ''get(selector)''"
        by auto
      then show ?thesis by simp
    qed
  qed
  show ?thesis
    by (rule conjI [OF split conjI [OF hooks conjI [OF bodies iff]]])
qed

lemma viewUsages:
  "collectUsages exampleRead exampleParse [''/test/view.tsx''] \<lparr>recoilDefinitions = []\<rparr> =
     [mkUsage ''doubleFoo'' reader ''useRecoilValue'' ''/test/view.tsx'' 4 None]"
proof -
  have l4: "offsetToLine viewSource 112 = 4"
    by (simp add: offsetToLine_def viewSource_def countLines.simps)
  have v: "viewSource \<noteq> []"
    by (simp add: viewSource_def)
  have 1: "collectFromFile exampleParse ''/test/view.tsx'' viewSource [] =
     [mkUsage ''doubleFoo'' reader ''useRecoilValue'' ''/test/view.tsx'' 4 None]"
    by (simp add: collectFromFile_def exampleParse_def viewProgram_def walk_eval
          collectEnter_def collectLeave_def isNamedFunctionDeclaration_def enterCall_def
          enterImport_def importSourceOf_def addHookAlias_def allRecoilHooks_def
          enterHookCall_def pushFor_def extractAtomName_def truthy_def l4)
  show ?thesis
    by (simp add: collectUsages_def collectFromSelectorBodies_def exampleRead_def truthy_def v 1)
qed

lemma selectorBodyUsages:
  "map (\<lambda>d. collectFromDefinition exampleRead d []) (recoilDefinitions selectorExtraction) =
     [[mkUsage ''fooState'' reader ''get(selector)'' ''/test/selectors.ts'' 5 (Some ''doubleFoo'')],
      [mkUsage ''doubleFoo'' reader ''get(selector)'' ''/test/selectors.ts'' 9 (Some ''tripleFoo'')],
      [mkUsage ''fooState'' reader ''get(selector)'' ''/test/selectors.ts'' 15 (Some ''barState'')]]"
proof -
  have l5: "offsetToLine selectorSource 147 = 5"
    by (simp add: offsetToLine_newlines selectorSource_def)
  have l9: "offsetToLine selectorSource 244 = 9"
    by (simp add: offsetToLine_newlines selectorSource_def)
  have l15: "offsetToLine selectorSource 389 = 15"
    by (simp add: offsetToLine_newlines selectorSource_def)
  have v: "selectorSource \<noteq> []"
    by (simp add: selectorSource_def)
  have 1: "walkSelectorGetBody selectorGetBody ''/test/selectors.ts'' selectorSource [] ''doubleFoo'' =
     [mkUsage ''fooState'' reader ''get(selector)'' ''/test/selectors.ts'' 5 (Some ''doubleFoo'')]"
    by (simp add: walkSelectorGetBody_def selectorGetBody_def walk_eval selectorEnter_def
          pushFor_def extractAtomName_def truthy_def l5)
  have 2: "walkSelectorGetBody tripleGetBody ''/test/selectors.ts'' selectorSource [] ''tripleFoo'' =
     [mkUsage ''doubleFoo'' reader ''get(selector)'' ''/test/selectors.ts'' 9 (Some ''tripleFoo'')]"
    by (simp add: walkSelectorGetBody_def tripleGetBody_def walk_eval selectorEnter_def
          pushFor_def extractAtomName_def truthy_def l9)
  have 3: "walkSelectorGetBody barDefaultGetBody ''/test/selectors.ts'' selectorSource [] ''barState'' =
     [mkUsage ''fooState'' reader ''get(selector)'' ''/test/selectors.ts'' 15 (Some ''barState'')]"
    by (simp add: walkSelectorGetBody_def barDefaultGetBody_def walk_eval selectorEnter_def
          pushFor_def extractAtomName_def truthy_def l15)
  show ?thesis
    by (simp add: collectFromDefinition_def selectorExtraction_def exampleRead_def truthy_def v 1 2 3)
qed

theorem enclosingDefinition_iff_selector_read_witness:
  "collectUsages exampleRead exampleParse [''/test/view.tsx''] selectorExtraction =
     [mkUsage ''doubleFoo'' reader ''useRecoilValue'' ''/test/view.tsx'' 4 None,
      mkUsage ''fooState'' reader ''get(selector)'' ''/test/selectors.ts'' 5 (Some ''doubleFoo''),
      mkUsage ''doubleFoo'' reader ''get(selector)'' ''/test/selectors.ts'' 9 (Some ''tripleFoo''),
      mkUsage ''fooState'' reader ''get(selector)'' ''/test/selectors.ts'' 15 (Some ''barState'')] \<and>
   map (\<lambda>u. (atomName u, hook u, enclosingDefinition u))
     (collectUsages exampleRead exampleParse [''/test/view.tsx''] selectorExtraction) =
     [(''doubleFoo'', ''useRecoilValue'', None),
      (''fooState'', ''get(selector)'', Some ''doubleFoo''),
      (''doubleFoo'', ''get(selector)'', Some ''tripleFoo''),
      (''fooState'', ''get(selector)'', Some ''barState'')] \<and>
   map (\<lambda>d. (def_name d, map enclosingDefinition (collectFromDefinition exampleRead d [])))
     (recoilDefinitions selectorExtraction) =
     [(''doubleFoo'', [Some ''doubleFoo'']), (''tripleFoo'', [Some ''tripleFoo'']),
      (''barState'', [Some ''barState''])]"
proof -
  let ?us = "collectUsages exampleRead exampleParse [''/test/view.tsx''] selectorExtraction"
  from enclosingDefinition_iff_selector_read
         [of exampleRead exampleParse "[''/test/view.tsx'']" selectorExtraction]
  have split: "?us =
      collectUsages exampleRead exampleParse [''/test/view.tsx''] \<lparr>recoilDefinitions = []\<rparr> @
      concat (map (\<lambda>d. collectFromDefinition exampleRead d []) (recoilDefinitions selectorExtraction))"
    and owner: "\<forall>d\<in>set (recoilDefinitions selectorExtraction).
      \<forall>u\<in>set (collectFromDefinition exampleRead d []).
        enclosingDefinition u = Some (def_name d) \<and> hook u = ''get(selector)''"
    by (rule conjunct1, rule conjunct1 [OF conjunct2 [OF conjunct2]])
  have all: "?us =
     [mkUsage ''doubleFoo'' reader ''useRecoilValue'' ''/test/view.tsx'' 4 None,
      mkUsage ''fooState'' reader ''get(selector)'' ''/test/selectors.ts'' 5 (Some ''doubleFoo''),
      mkUsage ''doubleFoo'' reader ''get(selector)'' ''/test/selectors.ts'' 9 (Some ''tripleFoo''),
      mkUsage ''fooState'' reader ''get(selector)'' ''/test/selectors.ts'' 15 (Some ''barState'')]"
    unfolding split by (simp add: viewUsages selectorBodyUsages)
  have tags: "map (\<lambda>u. (atomName u, hook u, enclosingDefinition u)) ?us =
     [(''doubleFoo'', ''useRecoilValue'', None),
      (''fooState'', ''get(selector)'', Some ''doubleFoo''),
      (''doubleFoo'', ''get(selector)'', Some ''tripleFoo''),
      (''fooState'', ''get(selector)'', Some ''barState'')]"
    unfolding all by (simp add: mkUsage_def)
  have names: "map def_name (recoilDefinitions selectorExtraction) =
      [''doubleFoo'', ''tripleFoo'', ''barState'']"
    by (simp add: selectorExtraction_def)
  have owners: "map (\<lambda>d. (def_name d, map enclosingDefinition (collectFromDefinition exampleRead d [])))
     (recoilDefinitions selectorExtraction) =
     [(''doubleFoo'', [Some ''doubleFoo'']), (''tripleFoo'', [Some ''tripleFoo'']),
      (''barState'', [Some ''barState''])]"
    using owner selectorBodyUsages names by (auto simp: selectorExtraction_def)
  from all tags owners show ?thesis by (intro conjI)
qed

subsection \<open>Initializer detection\<close>

lemma init_match: "startsWithInitialize ''initializeFoo''"
  by (simp add: startsWithInitialize_def lowerChar_def)

text \<open>
  Claim C6.  The call \<open>set(fooState, 1)\<close> inside the variable-bound function
  \<open>const initializeFoo = (set) => {\<dots>}\<close> yields no usage at all: the name stack of
  \<open>collectFromFile\<close> holds the names of function declarations only.  The same call inside
  the declaration \<open>function initializeFoo(set) {\<dots>}\<close> yields the initializer usage.
\<close>

theorem bare_set_in_variable_bound_function:
  "collectFromFile exampleParse ''/test/initialize-const.ts'' variableBoundSource [] = [] \<and>
   collectFromFile exampleParse ''/test/initialize.ts'' declaredInitializerSource [] =
     [mkUsage ''fooState'' initializer ''set(initializer)'' ''/test/initialize.ts'' 2 None]"
proof
  show "collectFromFile exampleParse ''/test/initialize-const.ts'' variableBoundSource [] = []"
    by (simp add: collectFromFile_def exampleParse_def variableBoundProgram_def walk_eval
          collectEnter_def collectLeave_def isNamedFunctionDeclaration_def enterCall_def enterImport_def)
next
  have l: "offsetToLine declaredInitializerSource 32 = 2"
    by (simp add: offsetToLine_def declaredInitializerSource_def countLines.simps)
  show "collectFromFile exampleParse ''/test/initialize.ts'' declaredInitializerSource [] =
     [mkUsage ''fooState'' initializer ''set(initializer)'' ''/test/initialize.ts'' 2 None]"
    by (simp add: collectFromFile_def exampleParse_def declaredInitializerProgram_def walk_eval
          collectEnter_def collectLeave_def isNamedFunctionDeclaration_def enterCall_def enterImport_def
          init_match pushFor_def extractAtomName_def truthy_def l)
qed

section \<open>Properties of the writer bindings\<close>

lemma componentAliases:
  "getRecoilHookAliases componentProgram = [''useSetRecoilState'' \<mapsto> ''useSetRecoilState'']"
  by (simp add: getRecoilHookAliases_def componentProgram_def walk_eval aliasesEnter_def
        importSourceOf_def addSetterHookAlias_def allSetterHooks_def setterHookNames_def
        tupleHookNames_def)

lemma componentBindings:
  "buildSetterBindings exampleRuntime [''/test/component.tsx''] =
     \<lparr>bs_setterBindings = [''/test/component.tsx:setFoo'' \<mapsto> ''fooState''],
      bs_wrapperCache = Map.empty, bs_resolvedFactoryKeys = {}\<rparr>"
  by (simp add: buildSetterBindings_def bindingsOfFile_def parseFile_def exampleRuntime_def
        exampleRead_def exampleParse_def componentAliases)
     (simp add: componentProgram_def walk_eval bindingsEnter_def resolveHookWriteBinding_def
        resolveDirectHookWriteBinding_def extractAtomName_def truthy_def setterHookNames_def
        bindSetterIdentifiers_def)

lemma componentCallsites:
  "collectRuntimeWriteCallsites exampleRuntime [''/test/component.tsx'']
     [''/test/component.tsx:setFoo'' \<mapsto> ''fooState''] =
     [\<lparr>cs_atomName = ''fooState'', cs_file = ''/test/component.tsx'', cs_line = 5,
       cs_calleeName = ''setFoo''\<rparr>]"
proof -
  have l: "offsetToLine componentSource 154 = 5"
    by (simp add: offsetToLine_def componentSource_def countLines.simps)
  show ?thesis
    by (simp add: collectRuntimeWriteCallsites_def callsitesOfFile_def exampleRuntime_def
        exampleRead_def exampleParse_def)
       (simp add: componentProgram_def walk_eval callsiteEnter_def l)
qed

lemma bindingsEnter_direct_keys:
  assumes "ntype n = ''VariableDeclarator''" and "child n ''init'' = Some callExpr"
    and "resolveDirectHookWriteBinding callExpr aliases = Some b"
  shows "bs_resolvedFactoryKeys (bindingsEnter rt f aliases n st) = bs_resolvedFactoryKeys st"
  using assms
  by (simp add: bindingsEnter_def resolveHookWriteBinding_def Let_def typeIs_def
      resolveDirectHookWriteBinding_def split: if_splits)

text \<open>
  Claim C5.  A component binds \<open>setFoo\<close> with the direct hook call
  \<open>useSetRecoilState(fooState)\<close> on line 4 and calls \<open>setFoo(1)\<close> on line 5.  The binding is
  made and the callsite scan finds the runtime callsite bound to it, but the
  declarator's key \<open>/test/component.tsx:4\<close> is not among the resolved factory keys:
  \<open>buildSetterBindings\<close> records a key on the wrapper path only.
\<close>

theorem direct_hook_factory_key_not_recorded:
  "bs_setterBindings (buildSetterBindings exampleRuntime [''/test/component.tsx''])
      ''/test/component.tsx:setFoo'' = Some ''fooState'' \<and>
   collectRuntimeWriteCallsites exampleRuntime [''/test/component.tsx'']
      (bs_setterBindings (buildSetterBindings exampleRuntime [''/test/component.tsx''])) =
     [\<lparr>cs_atomName = ''fooState'', cs_file = ''/test/component.tsx'', cs_line = 5,
       cs_calleeName = ''setFoo''\<rparr>] \<and>
   ''/test/component.tsx:4'' \<notin>
     bs_resolvedFactoryKeys (buildSetterBindings exampleRuntime [''/test/component.tsx''])"
  by (simp add: componentBindings componentCallsites)

end
